theory Spec2Isabelle
  imports Complex_Main "HOL-Library.Product_Lexorder"
begin

section \<open>Strings\<close>

text \<open>
  A Python \<^verbatim>\<open>str\<close> is a sequence of Unicode code points, so a string is a list of
  natural numbers. \<open>asc\<close> writes an ASCII literal.
\<close>

type_synonym ustr = "nat list"

definition asc :: "string \<Rightarrow> ustr" where
  "asc s = map of_char s"

section \<open>The standard library\<close>

text \<open>
  The program reads the Unicode character database through \<^verbatim>\<open>str.lower\<close>,
  \<^verbatim>\<open>unicodedata.normalize\<close>, \<^verbatim>\<open>unicodedata.category\<close> and the classes \<^verbatim>\<open>\d\<close>,
  \<^verbatim>\<open>\w\<close> and the flag \<^verbatim>\<open>re.IGNORECASE\<close> of \<^verbatim>\<open>re\<close>. The database is not part of
  the repository, so every function that reads it takes it as the parameter \<open>U\<close>:
  \<^item> \<open>str_lower\<close> is \<^verbatim>\<open>str.lower\<close>;
  \<^item> \<open>normalize_NFD\<close>, \<open>normalize_NFC\<close> are \<^verbatim>\<open>unicodedata.normalize\<close> for the two forms;
  \<^item> \<open>category_Mn c\<close> is \<^verbatim>\<open>unicodedata.category(c) == "Mn"\<close>;
  \<^item> \<open>decimal_digit c\<close> is the value of \<open>c\<close> when \<open>c\<close> is a decimal digit (what \<^verbatim>\<open>\d\<close>
    matches and \<^verbatim>\<open>Decimal\<close> reads), and \<open>None\<close> otherwise;
  \<^item> \<open>isalnum\<close> is \<^verbatim>\<open>str.isalnum\<close> on one character (\<^verbatim>\<open>\w\<close> is that or an underscore);
  \<^item> \<open>ci_eq p c\<close> says that the pattern character \<open>p\<close> matches the text character \<open>c\<close>
    under \<^verbatim>\<open>re.IGNORECASE\<close>.
\<close>

record unidata =
  str_lower :: "ustr \<Rightarrow> ustr"
  normalize_NFD :: "ustr \<Rightarrow> ustr"
  normalize_NFC :: "ustr \<Rightarrow> ustr"
  category_Mn :: "nat \<Rightarrow> bool"
  decimal_digit :: "nat \<Rightarrow> nat option"
  isalnum :: "nat \<Rightarrow> bool"
  ci_eq :: "nat \<Rightarrow> nat \<Rightarrow> bool"

text \<open>
  White space, as \<^verbatim>\<open>str.isspace\<close>, \<^verbatim>\<open>str.split\<close>, \<^verbatim>\<open>str.strip\<close> and \<^verbatim>\<open>\s\<close> have it:
  U+0009..U+000D, U+001C..U+0020, U+0085, U+00A0, U+1680, U+2000..U+200A, U+2028, U+2029,
  U+202F, U+205F and U+3000.
\<close>

definition is_space :: "nat \<Rightarrow> bool" where
  "is_space c \<longleftrightarrow>
     (9 \<le> c \<and> c \<le> 13) \<or> (28 \<le> c \<and> c \<le> 32) \<or> c = 133 \<or> c = 160 \<or> c = 5760 \<or>
     (8192 \<le> c \<and> c \<le> 8202) \<or> c = 8232 \<or> c = 8233 \<or> c = 8239 \<or> c = 8287 \<or> c = 12288"

definition is_word :: "unidata \<Rightarrow> nat \<Rightarrow> bool" where
  "is_word U c \<longleftrightarrow> isalnum U c \<or> c = 95"

definition py_strip :: "ustr \<Rightarrow> ustr" where
  "py_strip s = rev (dropWhile is_space (rev (dropWhile is_space s)))"

text \<open>\<^verbatim>\<open>s.strip(chars)\<close>.\<close>

definition py_strip_chars :: "ustr \<Rightarrow> ustr \<Rightarrow> ustr" where
  "py_strip_chars chars s =
     rev (dropWhile (\<lambda>c. c \<in> set chars) (rev (dropWhile (\<lambda>c. c \<in> set chars) s)))"

text \<open>
  \<^verbatim>\<open>s.split()\<close>: the maximal runs of characters that are not white space. \<open>cur\<close> is
  the run being read, reversed.
\<close>

fun split_runs :: "ustr \<Rightarrow> ustr \<Rightarrow> ustr list" where
  "split_runs cur [] = (if cur = [] then [] else [rev cur])"
| "split_runs cur (c # cs) =
     (if is_space c then (if cur = [] then split_runs [] cs else rev cur # split_runs [] cs)
      else split_runs (c # cur) cs)"

definition py_split :: "ustr \<Rightarrow> ustr list" where
  "py_split s = split_runs [] s"

text \<open>\<^verbatim>\<open>s.split(sep)\<close> for a separator of one character.\<close>

fun py_split_on :: "nat \<Rightarrow> ustr \<Rightarrow> ustr list" where
  "py_split_on sep [] = [[]]"
| "py_split_on sep (x # xs) =
     (if x = sep then [] # py_split_on sep xs
      else (case py_split_on sep xs of [] \<Rightarrow> [[x]] | w # ws \<Rightarrow> (x # w) # ws))"

text \<open>\<^verbatim>\<open>sep.join(parts)\<close>.\<close>

fun py_join :: "ustr \<Rightarrow> ustr list \<Rightarrow> ustr" where
  "py_join sep [] = []"
| "py_join sep [x] = x"
| "py_join sep (x # y # ys) = x @ sep @ py_join sep (y # ys)"

subsection \<open>Regular expressions\<close>

text \<open>
  The patterns of the program are values of \<open>regex\<close>, and \<open>rx_run\<close> is a backtracking
  matcher: from a position it gives every way the pattern can match there, in the order
  in which \<^verbatim>\<open>re\<close> tries them, so the first one is the match \<^verbatim>\<open>re\<close> reports. A
  repetition is over a set of characters, which is all the program's patterns need:
  \<open>Rep True lo hi\<close> is greedy, \<open>Rep False lo hi\<close> is lazy. A position is the text before
  it (reversed), the text after it and the groups captured so far. The flag \<open>ic\<close> is
  \<^verbatim>\<open>re.IGNORECASE\<close>; it acts on literal characters (the patterns compiled with it hold
  no set that it could change: only \<^verbatim>\<open>\d\<close>, \<^verbatim>\<open>\s\<close>, \<^verbatim>\<open>.\<close> and \<^verbatim>\<open>[.,]\<close>).
\<close>

datatype atom = Dot | Digit | Space | Ch nat | Rng nat nat

datatype cset = Is "atom list" | IsNot "atom list"

datatype regex =
    Lit nat
  | Set cset
  | Cat regex regex
  | Alt regex regex
  | Eps
  | Rep bool nat "nat option" cset
  | Grp nat regex
  | Bol
  | Eol
  | WordB

fun atom_match :: "unidata \<Rightarrow> atom \<Rightarrow> nat \<Rightarrow> bool" where
  "atom_match U Dot c = (c \<noteq> 10)"
| "atom_match U Digit c = (decimal_digit U c \<noteq> None)"
| "atom_match U Space c = is_space c"
| "atom_match U (Ch x) c = (c = x)"
| "atom_match U (Rng lo hi) c = (lo \<le> c \<and> c \<le> hi)"

fun cset_match :: "unidata \<Rightarrow> cset \<Rightarrow> nat \<Rightarrow> bool" where
  "cset_match U (Is as) c = list_ex (\<lambda>a. atom_match U a c) as"
| "cset_match U (IsNot as) c = (\<not> list_ex (\<lambda>a. atom_match U a c) as)"

type_synonym groups = "(nat \<times> ustr) list"

type_synonym mstate = "ustr \<times> ustr \<times> groups"

text \<open>
  The numbers of characters a repetition may take, when \<open>avail\<close> characters of the set
  stand at the position: from \<open>lo\<close> to \<open>hi\<close> (or \<open>avail\<close>), the longest first when greedy.
\<close>

definition rep_counts :: "bool \<Rightarrow> nat \<Rightarrow> nat option \<Rightarrow> nat \<Rightarrow> nat list" where
  "rep_counts greedy lo hi avail =
     (let top = (case hi of None \<Rightarrow> avail | Some h \<Rightarrow> min h avail);
          ns = [lo ..< Suc top]
      in if greedy then rev ns else ns)"

fun rx_run :: "unidata \<Rightarrow> bool \<Rightarrow> regex \<Rightarrow> mstate \<Rightarrow> mstate list" where
  "rx_run U ic (Lit c) (d, r, g) =
     (case r of [] \<Rightarrow> []
      | x # xs \<Rightarrow> if (if ic then ci_eq U c x else c = x) then [(x # d, xs, g)] else [])"
| "rx_run U ic (Set cs) (d, r, g) =
     (case r of [] \<Rightarrow> [] | x # xs \<Rightarrow> if cset_match U cs x then [(x # d, xs, g)] else [])"
| "rx_run U ic (Cat r1 r2) st = concat (map (rx_run U ic r2) (rx_run U ic r1 st))"
| "rx_run U ic (Alt r1 r2) st = rx_run U ic r1 st @ rx_run U ic r2 st"
| "rx_run U ic Eps st = [st]"
| "rx_run U ic (Rep greedy lo hi cs) (d, r, g) =
     map (\<lambda>n. (rev (take n r) @ d, drop n r, g))
       (rep_counts greedy lo hi (length (takeWhile (cset_match U cs) r)))"
| "rx_run U ic (Grp k r1) (d, r, g) =
     map (\<lambda>(d', r', g'). (d', r', (k, rev (take (length d' - length d) d')) # g'))
       (rx_run U ic r1 (d, r, g))"
| "rx_run U ic Bol (d, r, g) = (if d = [] then [(d, r, g)] else [])"
| "rx_run U ic Eol (d, r, g) = (if r = [] \<or> r = [10] then [(d, r, g)] else [])"
| "rx_run U ic WordB (d, r, g) =
     (let a = (case d of [] \<Rightarrow> False | x # _ \<Rightarrow> is_word U x);
          b = (case r of [] \<Rightarrow> False | y # _ \<Rightarrow> is_word U y)
      in if a \<noteq> b then [(d, r, g)] else [])"

text \<open>\<^verbatim>\<open>pattern.match(s)\<close>: the groups of the first match at the start of \<open>s\<close>.\<close>

definition re_match :: "unidata \<Rightarrow> bool \<Rightarrow> regex \<Rightarrow> ustr \<Rightarrow> groups option" where
  "re_match U ic rx s = (case rx_run U ic rx ([], s, []) of [] \<Rightarrow> None | (d, r, g) # _ \<Rightarrow> Some g)"

text \<open>\<^verbatim>\<open>m.group(k)\<close>; every group of the program's patterns takes part in every match.\<close>

definition group :: "groups \<Rightarrow> nat \<Rightarrow> ustr" where
  "group g k = (case map_of g k of None \<Rightarrow> [] | Some v \<Rightarrow> v)"

text \<open>
  \<^verbatim>\<open>pattern.finditer(s)\<close>: the matches from left to right, without overlap, each with
  the text between the match before it and itself, and the text after the last match.
  \<open>d\<close> is the text before the position (reversed), \<open>gap\<close> the text since the last match
  (reversed), \<open>skip\<close> the number of characters of the last match still to pass. After
  an empty match the scan moves one character on.
\<close>

fun finditer ::
  "unidata \<Rightarrow> bool \<Rightarrow> regex \<Rightarrow> ustr \<Rightarrow> ustr \<Rightarrow> ustr \<Rightarrow> nat \<Rightarrow> (ustr \<times> ustr \<times> groups) list \<times> ustr"
where
  "finditer U ic rx d [] gap skip =
     (case rx_run U ic rx (d, [], []) of
        [] \<Rightarrow> ([], rev gap)
      | (d', r', g') # _ \<Rightarrow> if skip = 0 then ([(rev gap, [], g')], []) else ([], rev gap))"
| "finditer U ic rx d (x # xs) gap (Suc k) = finditer U ic rx (x # d) xs gap k"
| "finditer U ic rx d (x # xs) gap 0 =
     (case rx_run U ic rx (d, x # xs, []) of
        [] \<Rightarrow> finditer U ic rx (x # d) xs (x # gap) 0
      | (d', r', g') # _ \<Rightarrow>
          (if length d' - length d = 0 then
             (case finditer U ic rx (x # d) xs [x] 0 of
                (ms, t) \<Rightarrow> ((rev gap, [], g') # ms, t))
           else
             (case finditer U ic rx (x # d) xs [] (length d' - length d - 1) of
                (ms, t) \<Rightarrow> ((rev gap, take (length d' - length d) (x # xs), g') # ms, t))))"

text \<open>\<^verbatim>\<open>pattern.sub(repl, s)\<close> for a replacement without group references.\<close>

definition re_sub :: "unidata \<Rightarrow> bool \<Rightarrow> regex \<Rightarrow> ustr \<Rightarrow> ustr \<Rightarrow> ustr" where
  "re_sub U ic rx repl s =
     (case finditer U ic rx [] s [] 0 of
        (ms, t) \<Rightarrow> concat (map (\<lambda>(gap, mt, g). gap @ repl) ms) @ t)"

text \<open>\<^verbatim>\<open>pattern.findall(s)\<close> for a pattern with one group: the texts of group 1.\<close>

definition re_findall :: "unidata \<Rightarrow> bool \<Rightarrow> regex \<Rightarrow> ustr \<Rightarrow> ustr list" where
  "re_findall U ic rx s = map (\<lambda>(gap, mt, g). group g 1) (fst (finditer U ic rx [] s [] 0))"

text \<open>\<^verbatim>\<open>pattern.search(s)\<close>, read as a truth value.\<close>

definition re_search :: "unidata \<Rightarrow> bool \<Rightarrow> regex \<Rightarrow> ustr \<Rightarrow> bool" where
  "re_search U ic rx s \<longleftrightarrow> fst (finditer U ic rx [] s [] 0) \<noteq> []"

text \<open>A word, and a list of alternatives in the order written.\<close>

definition lit :: "ustr \<Rightarrow> regex" where
  "lit w = foldr (\<lambda>c r. Cat (Lit c) r) w Eps"

definition cat :: "regex list \<Rightarrow> regex" where
  "cat rs = foldr Cat rs Eps"

fun alt :: "regex list \<Rightarrow> regex" where
  "alt [] = Eps"
| "alt [r] = r"
| "alt (r # rs) = Alt r (alt rs)"

definition rx_star :: "atom \<Rightarrow> regex" where
  "rx_star a = Rep True 0 None (Is [a])"

definition rx_plus :: "atom \<Rightarrow> regex" where
  "rx_plus a = Rep True 1 None (Is [a])"

subsection \<open>A Unicode database for Vietnamese text\<close>

text \<open>
  For the examples: the database restricted to Basic Latin, the precomposed Vietnamese
  letters and the combining marks U+0300..U+036F. On text of these characters the
  functions below are what CPython computes (NFC is only ever applied to text whose
  combining marks have been removed, where it changes nothing); other characters are left
  alone. The table gives the canonical decomposition of each Vietnamese letter.
\<close>

definition vn_decomp :: "(nat \<times> ustr) list" where
  "vn_decomp =
     [(192, [65, 768]), (193, [65, 769]), (194, [65, 770]), (195, [65, 771]),
      (200, [69, 768]), (201, [69, 769]), (202, [69, 770]), (204, [73, 768]),
      (205, [73, 769]), (210, [79, 768]), (211, [79, 769]), (212, [79, 770]),
      (213, [79, 771]), (217, [85, 768]), (218, [85, 769]), (221, [89, 769]),
      (224, [97, 768]), (225, [97, 769]), (226, [97, 770]), (227, [97, 771]),
      (232, [101, 768]), (233, [101, 769]), (234, [101, 770]), (236, [105, 768]),
      (237, [105, 769]), (242, [111, 768]), (243, [111, 769]), (244, [111, 770]),
      (245, [111, 771]), (249, [117, 768]), (250, [117, 769]), (253, [121, 769]),
      (258, [65, 774]), (259, [97, 774]), (296, [73, 771]), (297, [105, 771]),
      (360, [85, 771]), (361, [117, 771]), (416, [79, 795]), (417, [111, 795]),
      (431, [85, 795]), (432, [117, 795]), (7840, [65, 803]), (7841, [97, 803]),
      (7842, [65, 777]), (7843, [97, 777]), (7844, [65, 770, 769]), (7845, [97, 770, 769]),
      (7846, [65, 770, 768]), (7847, [97, 770, 768]), (7848, [65, 770, 777]), (7849, [97, 770, 777]),
      (7850, [65, 770, 771]), (7851, [97, 770, 771]), (7852, [65, 803, 770]), (7853, [97, 803, 770]),
      (7854, [65, 774, 769]), (7855, [97, 774, 769]), (7856, [65, 774, 768]), (7857, [97, 774, 768]),
      (7858, [65, 774, 777]), (7859, [97, 774, 777]), (7860, [65, 774, 771]), (7861, [97, 774, 771]),
      (7862, [65, 803, 774]), (7863, [97, 803, 774]), (7864, [69, 803]), (7865, [101, 803]),
      (7866, [69, 777]), (7867, [101, 777]), (7868, [69, 771]), (7869, [101, 771]),
      (7870, [69, 770, 769]), (7871, [101, 770, 769]), (7872, [69, 770, 768]), (7873, [101, 770, 768]),
      (7874, [69, 770, 777]), (7875, [101, 770, 777]), (7876, [69, 770, 771]), (7877, [101, 770, 771]),
      (7878, [69, 803, 770]), (7879, [101, 803, 770]), (7880, [73, 777]), (7881, [105, 777]),
      (7882, [73, 803]), (7883, [105, 803]), (7884, [79, 803]), (7885, [111, 803]),
      (7886, [79, 777]), (7887, [111, 777]), (7888, [79, 770, 769]), (7889, [111, 770, 769]),
      (7890, [79, 770, 768]), (7891, [111, 770, 768]), (7892, [79, 770, 777]), (7893, [111, 770, 777]),
      (7894, [79, 770, 771]), (7895, [111, 770, 771]), (7896, [79, 803, 770]), (7897, [111, 803, 770]),
      (7898, [79, 795, 769]), (7899, [111, 795, 769]), (7900, [79, 795, 768]), (7901, [111, 795, 768]),
      (7902, [79, 795, 777]), (7903, [111, 795, 777]), (7904, [79, 795, 771]), (7905, [111, 795, 771]),
      (7906, [79, 795, 803]), (7907, [111, 795, 803]), (7908, [85, 803]), (7909, [117, 803]),
      (7910, [85, 777]), (7911, [117, 777]), (7912, [85, 795, 769]), (7913, [117, 795, 769]),
      (7914, [85, 795, 768]), (7915, [117, 795, 768]), (7916, [85, 795, 777]), (7917, [117, 795, 777]),
      (7918, [85, 795, 771]), (7919, [117, 795, 771]), (7920, [85, 795, 803]), (7921, [117, 795, 803]),
      (7922, [89, 768]), (7923, [121, 768]), (7924, [89, 803]), (7925, [121, 803]),
      (7926, [89, 777]), (7927, [121, 777]), (7928, [89, 771]), (7929, [121, 771])]"

definition vn_lower_cp :: "nat \<Rightarrow> nat" where
  "vn_lower_cp c =
     (if 65 \<le> c \<and> c \<le> 90 then c + 32
      else if 192 \<le> c \<and> c \<le> 222 \<and> c \<noteq> 215 then c + 32
      else if c = 258 \<or> c = 272 \<or> c = 296 \<or> c = 360 \<or> c = 416 \<or> c = 431 then c + 1
      else if 7840 \<le> c \<and> c \<le> 7935 \<and> even c then c + 1
      else c)"

definition vn_letter :: "nat \<Rightarrow> bool" where
  "vn_letter c \<longleftrightarrow> map_of vn_decomp c \<noteq> None \<or> c = 272 \<or> c = 273"

definition vn_unidata :: unidata where
  "vn_unidata =
     \<lparr> str_lower = map vn_lower_cp,
       normalize_NFD = (\<lambda>s. concat (map (\<lambda>c. case map_of vn_decomp c of None \<Rightarrow> [c] | Some d \<Rightarrow> d) s)),
       normalize_NFC = (\<lambda>s. s),
       category_Mn = (\<lambda>c. 768 \<le> c \<and> c \<le> 879),
       decimal_digit = (\<lambda>c. if 48 \<le> c \<and> c \<le> 57 then Some (c - 48) else None),
       isalnum = (\<lambda>c. (48 \<le> c \<and> c \<le> 57) \<or> (65 \<le> c \<and> c \<le> 90) \<or> (97 \<le> c \<and> c \<le> 122) \<or> vn_letter c),
       ci_eq = (\<lambda>p c. vn_lower_cp p = vn_lower_cp c) \<rparr>"

section \<open>Normalizer\<close>

text \<open>\<^verbatim>\<open>pipeline.py\<close>: \<^verbatim>\<open>RE_SPACES = re.compile(r"\s+")\<close>.\<close>

definition RE_SPACES :: regex where
  "RE_SPACES = rx_plus Space"

definition normalize_spaces :: "unidata \<Rightarrow> ustr \<Rightarrow> ustr" where
  "normalize_spaces U s = py_strip (re_sub U False RE_SPACES (asc '' '') s)"

text \<open>\<^verbatim>\<open>remove_accents\<close>, the same in \<^verbatim>\<open>pipeline.py\<close> and \<^verbatim>\<open>phase2_alias_job.py\<close>.\<close>

definition remove_accents :: "unidata \<Rightarrow> ustr \<Rightarrow> ustr" where
  "remove_accents U s = normalize_NFC U (filter (\<lambda>ch. \<not> category_Mn U ch) (normalize_NFD U s))"

text \<open>\<^verbatim>\<open>[^a-z0-9]+\<close> and \<^verbatim>\<open>[^a-z0-9\s]+\<close>.\<close>

definition RE_NON_ALNUM :: regex where
  "RE_NON_ALNUM = Rep True 1 None (IsNot [Rng 97 122, Rng 48 57])"

definition RE_NON_ALNUM_SPACE :: regex where
  "RE_NON_ALNUM_SPACE = Rep True 1 None (IsNot [Rng 97 122, Rng 48 57, Space])"

text \<open>\<^verbatim>\<open>pipeline.py\<close>, the parser's side.\<close>

definition normalize_alias_norm :: "unidata \<Rightarrow> ustr \<Rightarrow> ustr" where
  "normalize_alias_norm U key =
     normalize_spaces U (re_sub U False RE_NON_ALNUM (asc '' '') (remove_accents U (str_lower U key)))"

text \<open>\<^verbatim>\<open>fill_key_norm.py\<close>, the backfill.\<close>

definition norm_text :: "unidata \<Rightarrow> ustr \<Rightarrow> ustr" where
  "norm_text U s =
     (if s = [] then []
      else py_strip (re_sub U False RE_NON_ALNUM (asc '' '')
             (filter (\<lambda>c. \<not> category_Mn U c) (normalize_NFD U (str_lower U s)))))"

text \<open>\<^verbatim>\<open>phase2_alias_job.py\<close>, the side of the duplicate search.\<close>

definition STOPWORDS :: "ustr list" where
  "STOPWORDS = map asc
     [''va'', ''voi'', ''loai'', ''moi'', ''neu'', ''thi'', ''dung'', ''cung'', ''duoc'', ''de'',
      ''it'', ''mot'', ''vai'', ''khoang'', ''hoac'', ''cai'', ''goi'', ''hop'', ''chai'', ''lon'',
      ''tuoi'', ''kho'', ''an'', ''uong'']"

definition ABBREV_MAP :: "(ustr \<times> ustr) list" where
  "ABBREV_MAP =
     [(asc ''nc'', asc ''nuoc''), (asc ''n.c'', asc ''nuoc''), (asc ''nuoc'', asc ''nuoc''),
      (asc ''sg'', []), (asc ''hn'', [])]"

text \<open>
  The loop over \<^verbatim>\<open>s.split()\<close>: \<^verbatim>\<open>t = ABBREV_MAP.get(t, t)\<close>, then the token is kept
  unless it is empty or a stop word.
\<close>

fun key_tokens :: "ustr list \<Rightarrow> ustr list" where
  "key_tokens [] = []"
| "key_tokens (t # ts) =
     (let t' = (case map_of ABBREV_MAP t of None \<Rightarrow> t | Some v \<Rightarrow> v)
      in if t' = [] \<or> t' \<in> set STOPWORDS then key_tokens ts else t' # key_tokens ts)"

definition normalize_key :: "unidata \<Rightarrow> ustr \<Rightarrow> ustr" where
  "normalize_key U s0 =
     (let s1 = str_lower U (py_strip s0);
          s2 = remove_accents U s1;
          s3 = re_sub U False RE_NON_ALNUM_SPACE (asc '' '') s2;
          s4 = py_strip (re_sub U False RE_SPACES (asc '' '') s3)
      in if s4 = [] then [] else py_join (asc '' '') (key_tokens (py_split s4)))"

section \<open>The store\<close>

text \<open>
  The tables the program reads and writes, as lists of rows. A column that may be
  \<^verbatim>\<open>NULL\<close> is an option. \<^verbatim>\<open>recipe_ingredients\<close> has the unique constraint
  \<^verbatim>\<open>(recipe_id, ingredient_id)\<close>, as \<^verbatim>\<open>resolve_collisions.py\<close> notes; a statement that
  would break it raises \<^verbatim>\<open>UniqueViolation\<close>. The unique constraints of
  \<^verbatim>\<open>ingredient_aliases\<close> are declared in a schema that is not among the sources, so
  they are a parameter: \<open>uq r r'\<close> says that the rows \<open>r\<close> and \<open>r'\<close> cannot both be in
  the table.
\<close>

datatype exn = UniqueViolation | ValueError | OtherError | InvalidOperation | DivisionByZero | Overflow

record ingredient =
  i_id :: ustr
  i_key :: ustr
  i_display_name :: ustr
  i_search_text :: ustr

record ingredient_alias =
  ia_ingredient_id :: ustr
  ia_alias :: ustr
  ia_alias_norm :: ustr

record recipe_ingredient =
  ri_recipe_id :: ustr
  ri_ingredient_id :: ustr
  ri_amount :: "rat option"
  ri_unit :: "ustr option"
  ri_note :: "ustr option"
  ri_role :: "ustr option"

record database =
  ingredients :: "ingredient list"
  ingredient_aliases :: "ingredient_alias list"
  recipe_ingredients :: "recipe_ingredient list"


section \<open>Candidate Generator and Decision Classifier: \<^verbatim>\<open>phase2_alias_job.py\<close>\<close>

text \<open>
  Scores are floats; the program compares them and never calculates with them, so a
  score is the rational number the float stands for. The constant \<^verbatim>\<open>0.98\<close> is the
  double nearest to 98/100. \<^verbatim>\<open>SequenceMatcher(None, a, b).ratio()\<close> of \<^verbatim>\<open>difflib\<close> is
  the parameter \<open>ratio\<close>.
\<close>

definition similarity :: "(ustr \<Rightarrow> ustr \<Rightarrow> rat) \<Rightarrow> ustr \<Rightarrow> ustr \<Rightarrow> rat" where
  "similarity ratio a b = (if a = [] \<or> b = [] then 0 else ratio a b)"

definition RE_DIGIT :: regex where
  "RE_DIGIT = Set (Is [Digit])"

definition looks_bad_key :: "unidata \<Rightarrow> ustr \<Rightarrow> bool" where
  "looks_bad_key U key \<longleftrightarrow>
     key = [] \<or> re_search U False RE_DIGIT key \<or> 40 \<le> length key \<or> 8 < length (py_split key)"

definition PACKAGING_WORDS :: "ustr list" where
  "PACKAGING_WORDS = map asc
     [''hop'', ''goi'', ''chai'', ''lon'', ''hu'', ''bi'', ''tui'', ''loai'', ''hop'', ''chai'', ''th'',
      ''lo'', ''thung'', ''vien'', ''que'', ''mieng'']"

definition DANGEROUS_NEAR_PAIRS :: "(ustr \<times> ustr) list" where
  "DANGEROUS_NEAR_PAIRS =
     [(asc ''canh'', asc ''chanh''), (asc ''chanh'', asc ''canh''),
      (asc ''suon'', asc ''sun''), (asc ''sun'', asc ''suon''),
      (asc ''ga'', asc ''gao''), (asc ''gao'', asc ''ga''),
      (asc ''ca'', asc ''cua''), (asc ''cua'', asc ''ca''),
      (asc ''chan'', asc ''cha''), (asc ''cha'', asc ''chan'')]"

definition PROTEIN_TOKENS :: "ustr list" where
  "PROTEIN_TOKENS = map asc
     [''ga'', ''heo'', ''bo'', ''tom'', ''ca'', ''cua'', ''de'', ''vit'', ''lon'']"

definition tokens :: "ustr \<Rightarrow> ustr list" where
  "tokens n = filter (\<lambda>t. t \<noteq> []) (py_split n)"

definition has_packaging_suffix :: "ustr \<Rightarrow> ustr \<Rightarrow> bool" where
  "has_packaging_suffix alias_norm canon_norm =
     (if tokens canon_norm = [] \<or> length (tokens alias_norm) \<le> length (tokens canon_norm) then False
      else if take (length (tokens canon_norm)) (tokens alias_norm) \<noteq> tokens canon_norm then False
      else list_all (\<lambda>t. t \<in> set PACKAGING_WORDS)
             (drop (length (tokens canon_norm)) (tokens alias_norm)))"

definition is_format_only :: "ustr \<Rightarrow> ustr \<Rightarrow> bool" where
  "is_format_only canon_norm alias_norm \<longleftrightarrow> canon_norm = alias_norm"

definition has_dangerous_pair :: "ustr \<Rightarrow> ustr \<Rightarrow> bool" where
  "has_dangerous_pair canon_norm alias_norm =
     list_ex (\<lambda>(a, b). a \<in> set (tokens canon_norm) \<and> b \<in> set (tokens alias_norm))
       DANGEROUS_NEAR_PAIRS"

definition protein_mismatch :: "ustr \<Rightarrow> ustr \<Rightarrow> bool" where
  "protein_mismatch canon_norm alias_norm \<longleftrightarrow>
     set (tokens canon_norm) \<inter> set PROTEIN_TOKENS \<noteq> {} \<and>
     set (tokens alias_norm) \<inter> set PROTEIN_TOKENS \<noteq> {} \<and>
     set (tokens canon_norm) \<inter> set PROTEIN_TOKENS \<noteq> set (tokens alias_norm) \<inter> set PROTEIN_TOKENS"

definition last_token_diff :: "ustr \<Rightarrow> ustr \<Rightarrow> bool" where
  "last_token_diff canon_norm alias_norm =
     (if tokens canon_norm = [] \<or> tokens alias_norm = [] then False
      else last (tokens canon_norm) \<noteq> last (tokens alias_norm))"

record IngredientRow =
  ing_id :: ustr
  ing_key :: ustr
  ing_norm :: ustr
  used_count :: int

text \<open>
  \<^verbatim>\<open>bucket_key\<close> formats the first character and the length band as one string,
  \<^verbatim>\<open>f"{first}:{band}"\<close>, or gives \<^verbatim>\<open>"empty"\<close>; here it is the pair itself (the string
  determines it, since the first character is one code point).
\<close>

datatype bucket = Bucket_empty | Bucket nat nat

definition bucket_key :: "ustr \<Rightarrow> bucket" where
  "bucket_key n = (case n of [] \<Rightarrow> Bucket_empty | first # _ \<Rightarrow> Bucket first ((length n div 5) * 5))"

text \<open>
  The field \<^verbatim>\<open>reason\<close> is a string formatted from the score and the bucket of the
  canonical side; here it is the two values.
\<close>

record Suggestion =
  canonical_id :: ustr
  canonical_key :: ustr
  alias_id :: ustr
  alias_key :: ustr
  score :: rat
  used_count_canonical :: int
  used_count_alias :: int
  reason :: "rat \<times> bucket"

text \<open>
  \<^verbatim>\<open>build_ingredients\<close>: every ingredient with the number of join-rows that use it and
  its normalized key.
\<close>

definition build_ingredients :: "unidata \<Rightarrow> database \<Rightarrow> IngredientRow list" where
  "build_ingredients U db =
     map (\<lambda>i. \<lparr> ing_id = i_id i, ing_key = i_key i, ing_norm = normalize_key U (i_key i),
                used_count = int (length (filter (\<lambda>r. ri_ingredient_id r = i_id i)
                                            (recipe_ingredients db))) \<rparr>)
       (ingredients db)"

text \<open>\<^verbatim>\<open>buckets.setdefault(k, []).append(v)\<close> on a dictionary that keeps the order of insertion.\<close>

fun add_to_bucket :: "bucket \<Rightarrow> IngredientRow \<Rightarrow> (bucket \<times> IngredientRow list) list \<Rightarrow> (bucket \<times> IngredientRow list) list" where
  "add_to_bucket k v [] = [(k, [v])]"
| "add_to_bucket k v ((k', vs) # bs) =
     (if k = k' then (k', vs @ [v]) # bs else (k', vs) # add_to_bucket k v bs)"

text \<open>The rule that picks the canonical side of a pair \<open>a\<close>, \<open>b2\<close>.\<close>

definition pick_canonical :: "IngredientRow \<Rightarrow> IngredientRow \<Rightarrow> IngredientRow \<times> IngredientRow" where
  "pick_canonical a b2 =
     (if used_count a > used_count b2 \<or>
         (used_count a = used_count b2 \<and> length (ing_norm a) \<le> length (ing_norm b2))
      then (a, b2) else (b2, a))"

definition make_suggestion :: "IngredientRow \<Rightarrow> IngredientRow \<Rightarrow> rat \<Rightarrow> Suggestion" where
  "make_suggestion canonical alias_row sc =
     \<lparr> canonical_id = ing_id canonical, canonical_key = ing_key canonical,
       alias_id = ing_id alias_row, alias_key = ing_key alias_row, score = sc,
       used_count_canonical = used_count canonical, used_count_alias = used_count alias_row,
       reason = (sc, bucket_key (ing_norm canonical)) \<rparr>"

text \<open>
  The inner loop, \<^verbatim>\<open>for j in range(i + 1, len(items))\<close>, for \<^verbatim>\<open>a = items[i]\<close> and the
  items after it. The state is the list of suggestions and \<^verbatim>\<open>pair_count\<close>; \<open>Inl\<close> is
  the early \<^verbatim>\<open>return suggestions\<close> at the cap.
\<close>

fun compare_with ::
  "unidata \<Rightarrow> (ustr \<Rightarrow> ustr \<Rightarrow> rat) \<Rightarrow> rat \<Rightarrow> int \<Rightarrow> IngredientRow \<Rightarrow> IngredientRow list \<Rightarrow>
   Suggestion list \<times> int \<Rightarrow> Suggestion list + Suggestion list \<times> int"
where
  "compare_with U ratio min_score max_pairs a [] st = Inr st"
| "compare_with U ratio min_score max_pairs a (b2 # rest) (suggestions, pair_count) =
     (if max_pairs \<le> pair_count then Inl suggestions
      else if 8 \<le> \<bar>int (length (ing_norm a)) - int (length (ing_norm b2))\<bar> then
        compare_with U ratio min_score max_pairs a rest (suggestions, pair_count)
      else if similarity ratio (ing_norm a) (ing_norm b2) < min_score then
        compare_with U ratio min_score max_pairs a rest (suggestions, pair_count + 1)
      else if str_lower U (py_strip (ing_key (fst (pick_canonical a b2)))) =
              str_lower U (py_strip (ing_key (snd (pick_canonical a b2)))) then
        compare_with U ratio min_score max_pairs a rest (suggestions, pair_count + 1)
      else
        compare_with U ratio min_score max_pairs a rest
          (suggestions @ [make_suggestion (fst (pick_canonical a b2)) (snd (pick_canonical a b2))
                            (similarity ratio (ing_norm a) (ing_norm b2))],
           pair_count + 1))"

text \<open>The loop \<^verbatim>\<open>for i in range(len(items))\<close>.\<close>

fun compare_all ::
  "unidata \<Rightarrow> (ustr \<Rightarrow> ustr \<Rightarrow> rat) \<Rightarrow> rat \<Rightarrow> int \<Rightarrow> IngredientRow list \<Rightarrow>
   Suggestion list \<times> int \<Rightarrow> Suggestion list + Suggestion list \<times> int"
where
  "compare_all U ratio min_score max_pairs [] st = Inr st"
| "compare_all U ratio min_score max_pairs (a # rest) st =
     (case compare_with U ratio min_score max_pairs a rest st of
        Inl r \<Rightarrow> Inl r
      | Inr st' \<Rightarrow> compare_all U ratio min_score max_pairs rest st')"

text \<open>
  The loop over the buckets; \<^verbatim>\<open>sorted(items, key=lambda x: x.used_count, reverse=True)\<close>
  is a stable sort by falling usage.
\<close>

fun scan_buckets ::
  "unidata \<Rightarrow> (ustr \<Rightarrow> ustr \<Rightarrow> rat) \<Rightarrow> rat \<Rightarrow> int \<Rightarrow> (bucket \<times> IngredientRow list) list \<Rightarrow>
   Suggestion list \<times> int \<Rightarrow> Suggestion list + Suggestion list \<times> int"
where
  "scan_buckets U ratio min_score max_pairs [] st = Inr st"
| "scan_buckets U ratio min_score max_pairs ((b, items) # bs) st =
     (if length items < 2 then scan_buckets U ratio min_score max_pairs bs st
      else
        (case compare_all U ratio min_score max_pairs (sort_key (\<lambda>x. - used_count x) items) st of
           Inl r \<Rightarrow> Inl r
         | Inr st' \<Rightarrow> scan_buckets U ratio min_score max_pairs bs st'))"

definition clean_rows :: "unidata \<Rightarrow> IngredientRow list \<Rightarrow> IngredientRow list" where
  "clean_rows U rows = filter (\<lambda>x. ing_norm x \<noteq> [] \<and> \<not> looks_bad_key U (ing_key x)) rows"

definition make_buckets :: "IngredientRow list \<Rightarrow> (bucket \<times> IngredientRow list) list" where
  "make_buckets rows = foldl (\<lambda>bs ing. add_to_bucket (bucket_key (ing_norm ing)) ing bs) [] rows"

definition generate_suggestions ::
  "unidata \<Rightarrow> (ustr \<Rightarrow> ustr \<Rightarrow> rat) \<Rightarrow> IngredientRow list \<Rightarrow> rat \<Rightarrow> int \<Rightarrow> Suggestion list" where
  "generate_suggestions U ratio rows min_score max_pairs =
     (case scan_buckets U ratio min_score max_pairs (make_buckets (clean_rows U rows)) ([], 0) of
        Inl suggestions \<Rightarrow> suggestions
      | Inr (suggestions, pair_count) \<Rightarrow>
          sort_key (\<lambda>s. (- score s, - used_count_alias s)) suggestions)"

text \<open>
  The Decision Classifier is the body of the loop of \<^verbatim>\<open>export_csv\<close>: the columns
  \<^verbatim>\<open>decision\<close> and \<^verbatim>\<open>approved\<close> of the row written for a suggestion.
\<close>

datatype decision = manual_review | auto_reject | auto_approve

definition float_0_98 :: rat where
  "float_0_98 = 2206763817411543 / 2251799813685248"

definition classify :: "unidata \<Rightarrow> bool \<Rightarrow> Suggestion \<Rightarrow> decision \<times> ustr" where
  "classify U approve_packaging s =
     (if looks_bad_key U (alias_key s) \<or> looks_bad_key U (canonical_key s) then (auto_reject, [])
      else if protein_mismatch (normalize_key U (canonical_key s)) (normalize_key U (alias_key s))
        then (auto_reject, [])
      else if has_dangerous_pair (normalize_key U (canonical_key s)) (normalize_key U (alias_key s))
        then (auto_reject, [])
      else if last_token_diff (normalize_key U (canonical_key s)) (normalize_key U (alias_key s)) \<and>
              score s < float_0_98
        then (auto_reject, [])
      else if is_format_only (normalize_key U (canonical_key s)) (normalize_key U (alias_key s))
        then (auto_approve, asc ''Y'')
      else if approve_packaging \<and>
              has_packaging_suffix (normalize_key U (alias_key s)) (normalize_key U (canonical_key s))
        then (auto_approve, asc ''Y'')
      else (manual_review, []))"

text \<open>\<^verbatim>\<open>suggestions[:limit]\<close>, and the rows \<^verbatim>\<open>export_csv\<close> writes after the header.\<close>

definition py_prefix :: "int \<Rightarrow> 'a list \<Rightarrow> 'a list" where
  "py_prefix limit xs =
     (if 0 \<le> limit then take (nat limit) xs else take (length xs - nat (- limit)) xs)"

definition export_csv :: "unidata \<Rightarrow> Suggestion list \<Rightarrow> int \<Rightarrow> bool \<Rightarrow> (Suggestion \<times> decision \<times> ustr) list" where
  "export_csv U suggestions limit approve_packaging =
     map (\<lambda>s. (s, classify U approve_packaging s)) (py_prefix limit suggestions)"

section \<open>Merge Executor: \<^verbatim>\<open>phase2_alias_job.py\<close>\<close>



text \<open>
  \<^verbatim>\<open>SQL_MERGE_CONFLICTS\<close>. \<open>conflicts\<close> is the common table expression of that name: the
  pairs of a row \<open>c\<close> of the canonical ingredient and a row \<open>a\<close> of the alias ingredient
  for the same recipe. The statement updates the rows \<open>c\<close> and deletes the rows \<open>a\<close>,
  both read from the table as it was before the statement. \<open>merged_row c a\<close> is the
  \<^verbatim>\<open>set\<close> clause. Were a row joined to several rows \<open>a\<close> (which the unique constraint
  excludes), PostgreSQL would use one of them; here it is the first. A row that is both
  of the canonical and of the alias ingredient (the two ids being equal) is deleted
  here; what PostgreSQL does with it is not determined.
\<close>

definition conflicts ::
  "recipe_ingredient list \<Rightarrow> ustr \<Rightarrow> ustr \<Rightarrow> (recipe_ingredient \<times> recipe_ingredient) list" where
  "conflicts table canonical_id' alias_id' =
     [(c, a). c \<leftarrow> table, a \<leftarrow> table,
              ri_recipe_id a = ri_recipe_id c \<and> ri_ingredient_id c = canonical_id' \<and>
              ri_ingredient_id a = alias_id']"

definition coalesce :: "'a option \<Rightarrow> 'a option \<Rightarrow> 'a option" where
  "coalesce x y = (case x of None \<Rightarrow> y | Some v \<Rightarrow> Some v)"

definition merged_note :: "ustr option \<Rightarrow> ustr option \<Rightarrow> ustr option" where
  "merged_note c_note a_note =
     (case (c_note, a_note) of
        (None, None) \<Rightarrow> None
      | (None, Some n) \<Rightarrow> Some n
      | (Some m, None) \<Rightarrow> Some m
      | (Some m, Some n) \<Rightarrow> Some (take 200 (m @ asc ''; '' @ n)))"

definition merged_row :: "recipe_ingredient \<Rightarrow> recipe_ingredient \<Rightarrow> recipe_ingredient" where
  "merged_row c a =
     c\<lparr> ri_role := (if ri_role c = Some (asc ''core'') \<or> ri_role a = Some (asc ''core'')
                     then Some (asc ''core'') else ri_role c),
        ri_amount := coalesce (ri_amount c) (ri_amount a),
        ri_unit := coalesce (ri_unit c) (ri_unit a),
        ri_note := merged_note (ri_note c) (ri_note a) \<rparr>"

definition same_key :: "recipe_ingredient \<Rightarrow> recipe_ingredient \<Rightarrow> bool" where
  "same_key r r' \<longleftrightarrow> ri_recipe_id r = ri_recipe_id r' \<and> ri_ingredient_id r = ri_ingredient_id r'"

definition sql_merge_conflicts :: "recipe_ingredient list \<Rightarrow> ustr \<Rightarrow> ustr \<Rightarrow> recipe_ingredient list" where
  "sql_merge_conflicts table canonical_id' alias_id' =
     map (\<lambda>r. case find (\<lambda>(c, a). same_key r c) (conflicts table canonical_id' alias_id') of
                 None \<Rightarrow> r
               | Some (c, a) \<Rightarrow> merged_row r a)
       (filter (\<lambda>r. \<not> list_ex (\<lambda>(c, a). same_key r a) (conflicts table canonical_id' alias_id'))
          table)"



section \<open>Collision Resolver: \<^verbatim>\<open>resolve_collisions.py\<close>\<close>

text \<open>
  \<^verbatim>\<open>run_apply\<close> runs one transaction per row of the CSV. The body of the transaction,
  \<^verbatim>\<open>with conn: stats = apply_one_alias(conn, r.alias_norm, r.canonical_id, dry_run)\<close>,
  works on the store, which other writers may change between two attempts; it is a
  parameter here: from a state of the world \<open>'w\<close> it gives the next state and either the
  statistics or the exception raised (the transaction then being rolled back).
  \<^verbatim>\<open>conn.rollback()\<close> is the second parameter.
\<close>

record Row =
  row_alias_norm :: ustr
  row_canonical_id :: ustr
  row_canonical_key :: ustr
  row_decision :: ustr
  row_notes :: ustr

record stats =
  st_aliases :: int
  st_ri_conflicts_deleted :: int
  st_ri_updated :: int
  st_ingredients_deleted :: int

record totals =
  alias_norms :: int
  skipped_manual :: int
  aliases :: int
  ri_conflicts_deleted :: int
  ri_updated :: int
  ingredients_deleted :: int

record 'w conn =
  transaction :: "'w \<Rightarrow> ustr \<Rightarrow> ustr \<Rightarrow> bool \<Rightarrow> 'w \<times> (exn + stats)"
  rollback :: "'w \<Rightarrow> 'w"

text \<open>
  \<^verbatim>\<open>for attempt in range(3): try: ... break / except errors.UniqueViolation:
  conn.rollback(); if attempt == 2: raise\<close>. The list holds the values of \<^verbatim>\<open>attempt\<close>
  still to come. Any other exception leaves the loop at once. The loop cannot run out
  of attempts without a \<^verbatim>\<open>break\<close> or a \<^verbatim>\<open>raise\<close>, since the last value of
  \<^verbatim>\<open>attempt\<close> is 2; were it to, \<^verbatim>\<open>stats\<close> would be unbound (or stale), which is
  \<open>OtherError\<close> here.
\<close>

fun attempts :: "'w conn \<Rightarrow> bool \<Rightarrow> Row \<Rightarrow> nat list \<Rightarrow> 'w \<Rightarrow> 'w \<times> (exn + stats)" where
  "attempts C dry r [] w = (w, Inl OtherError)"
| "attempts C dry r (attempt # rest) w =
     (case transaction C w (row_alias_norm r) (row_canonical_id r) dry of
        (w', Inr st) \<Rightarrow> (w', Inr st)
      | (w', Inl UniqueViolation) \<Rightarrow>
          (let w'' = rollback C w' in
           if attempt = 2 then (w'', Inl UniqueViolation) else attempts C dry r rest w'')
      | (w', Inl e) \<Rightarrow> (w', Inl e))"

definition retry_group :: "'w conn \<Rightarrow> bool \<Rightarrow> Row \<Rightarrow> 'w \<Rightarrow> 'w \<times> (exn + stats)" where
  "retry_group C dry r w = attempts C dry r [0, 1, 2] w"

definition add_stats :: "totals \<Rightarrow> stats \<Rightarrow> totals" where
  "add_stats tot st =
     tot\<lparr> aliases := aliases tot + st_aliases st,
            ri_conflicts_deleted := ri_conflicts_deleted tot + st_ri_conflicts_deleted st,
            ri_updated := ri_updated tot + st_ri_updated st,
            ingredients_deleted := ingredients_deleted tot + st_ingredients_deleted st \<rparr>"

text \<open>
  The loop over \<^verbatim>\<open>enumerate(rows, 1)\<close>. The state is the running total, the world and
  the lines printed so far (a line is the index \<^verbatim>\<open>idx\<close> of the row it reports, printed
  once the row's transaction is committed). An exception ends the loop: nothing in
  \<^verbatim>\<open>run_apply\<close> or in its caller \<^verbatim>\<open>main\<close> catches it.
\<close>

fun run_rows ::
  "'w conn \<Rightarrow> bool \<Rightarrow> (nat \<times> Row) list \<Rightarrow> totals \<Rightarrow> 'w \<Rightarrow> nat list \<Rightarrow> 'w \<times> nat list \<times> (exn + totals)"
where
  "run_rows C dry [] tot w out = (w, out, Inr tot)"
| "run_rows C dry ((idx, r) # rows) tot w out =
     (if row_alias_norm r = [] \<or> row_canonical_id r = [] then run_rows C dry rows tot w out
      else if row_decision r \<noteq> asc ''auto'' then
        run_rows C dry rows (tot\<lparr>skipped_manual := skipped_manual tot + 1\<rparr>) w out
      else
        (let tot1 = tot\<lparr>alias_norms := alias_norms tot + 1\<rparr> in
         case retry_group C dry r w of
           (w', Inl e) \<Rightarrow> (w', out, Inl e)
         | (w', Inr st) \<Rightarrow> run_rows C dry rows (add_stats tot1 st) w' (out @ [idx])))"

definition total0 :: totals where
  "total0 = \<lparr> alias_norms = 0, skipped_manual = 0, aliases = 0, ri_conflicts_deleted = 0,
              ri_updated = 0, ingredients_deleted = 0 \<rparr>"

definition run_apply :: "'w conn \<Rightarrow> Row list \<Rightarrow> bool \<Rightarrow> 'w \<Rightarrow> 'w \<times> nat list \<times> (exn + totals)" where
  "run_apply C rows dry w = run_rows C dry (zip [1 ..< Suc (length rows)] rows) total0 w []"

text \<open>
  A row is a group to resolve when it has an \<^verbatim>\<open>alias_norm\<close>, a \<^verbatim>\<open>canonical_id\<close> and
  the decision \<^verbatim>\<open>auto\<close>.
\<close>

definition is_group :: "Row \<Rightarrow> bool" where
  "is_group r \<longleftrightarrow> row_alias_norm r \<noteq> [] \<and> row_canonical_id r \<noteq> [] \<and> row_decision r = asc ''auto''"

text \<open>
  \<open>violations C dry r n w\<close> is the world after \<open>n\<close> attempts in a row on \<open>r\<close> that each
  raised \<^verbatim>\<open>UniqueViolation\<close> and were rolled back, and \<open>None\<close> if one of them did
  something else.
\<close>

fun violations :: "'w conn \<Rightarrow> bool \<Rightarrow> Row \<Rightarrow> nat \<Rightarrow> 'w \<Rightarrow> 'w option" where
  "violations C dry r 0 w = Some w"
| "violations C dry r (Suc n) w =
     (case transaction C w (row_alias_norm r) (row_canonical_id r) dry of
        (w', Inl UniqueViolation) \<Rightarrow> violations C dry r n (rollback C w')
      | _ \<Rightarrow> None)"

subsection \<open>A connection with scheduled violations\<close>

text \<open>
  A world for examples: for each attempt to come, whether it fails with
  \<^verbatim>\<open>UniqueViolation\<close> (another writer holds the colliding row then); the alias forms
  whose transaction has been attempted, in order; and the alias forms whose transaction
  has been committed. \<^verbatim>\<open>with conn\<close> itself rolls back the transaction that raises, so
  \<^verbatim>\<open>conn.rollback()\<close> finds no transaction open and changes nothing.
\<close>

record sched =
  schedule :: "bool list"
  attempted :: "ustr list"
  committed :: "ustr list"

definition sched_conn :: "sched conn" where
  "sched_conn =
     \<lparr> transaction = (\<lambda>w an cid dry.
         if schedule w \<noteq> [] \<and> hd (schedule w)
         then (w\<lparr>schedule := tl (schedule w), attempted := attempted w @ [an]\<rparr>,
               Inl UniqueViolation)
         else (w\<lparr>schedule := tl (schedule w), attempted := attempted w @ [an],
                 committed := (if dry then committed w else committed w @ [an])\<rparr>,
               Inr \<lparr> st_aliases = 1, st_ri_conflicts_deleted = 0, st_ri_updated = 0,
                     st_ingredients_deleted = 0 \<rparr>)),
       rollback = (\<lambda>w. w) \<rparr>"

definition auto_row :: "string \<Rightarrow> string \<Rightarrow> Row" where
  "auto_row an cid =
     \<lparr> row_alias_norm = asc an, row_canonical_id = asc cid, row_canonical_key = asc cid,
       row_decision = asc ''auto'', row_notes = [] \<rparr>"

definition sched0 :: "bool list \<Rightarrow> sched" where
  "sched0 bs = \<lparr> schedule = bs, attempted = [], committed = [] \<rparr>"

section \<open>Ingredient parser: \<^verbatim>\<open>pipeline.py\<close>\<close>

subsection \<open>Decimal numbers\<close>

text \<open>
  A \<^verbatim>\<open>Decimal\<close> is the rational number it stands for. \<open>digits_val\<close> reads a text of
  decimal digits. \<open>Decimal\<close> is the constructor \<^verbatim>\<open>Decimal(text)\<close>, which is exact, on
  the numerals the patterns of the parser can capture: decimal digits with at most one
  point, and a digit on one side of it at least. \<open>None\<close> stands for the exception
  \<^verbatim>\<open>InvalidOperation\<close>. (The other texts that \<^verbatim>\<open>Decimal\<close> reads, with a sign, an
  exponent, spaces or underscores, or naming an infinity or a NaN, cannot be a group
  \<^verbatim>\<open>num\<close>, \<^verbatim>\<open>den\<close> or \<^verbatim>\<open>val\<close>; they are \<open>None\<close> here.)
\<close>

fun digits_val :: "unidata \<Rightarrow> ustr \<Rightarrow> nat \<Rightarrow> nat option" where
  "digits_val U [] acc = Some acc"
| "digits_val U (c # cs) acc =
     (case decimal_digit U c of None \<Rightarrow> None | Some v \<Rightarrow> digits_val U cs (10 * acc + v))"

definition Decimal :: "unidata \<Rightarrow> ustr \<Rightarrow> rat option" where
  "Decimal U s =
     (let ip = takeWhile (\<lambda>c. c \<noteq> 46) s;
          fp = drop (Suc (length ip)) s
      in if ip = [] \<and> fp = [] then None
         else (case digits_val U (ip @ fp) 0 of
                 None \<Rightarrow> None
               | Some n \<Rightarrow> Some (of_nat n / 10 ^ length fp)))"

text \<open>
  Arithmetic on \<^verbatim>\<open>Decimal\<close> rounds its exact result in the context of the thread; the
  program never changes it, so it is the default context: 28 significant digits,
  \<^verbatim>\<open>ROUND_HALF_EVEN\<close>, \<^verbatim>\<open>Emax = 999999\<close>, \<^verbatim>\<open>Emin = -999999\<close>, with the traps
  \<^verbatim>\<open>InvalidOperation\<close>, \<^verbatim>\<open>DivisionByZero\<close> and \<^verbatim>\<open>Overflow\<close>. \<open>ndigits n\<close> is the
  number of decimal digits of \<open>n\<close>, \<open>adjusted a\<close> the exponent of the first significant
  digit of \<open>a > 0\<close>. \<open>round_context\<close> rounds an exact result: to a multiple of the power
  of ten 27 places below its first digit, and not below \<^verbatim>\<open>Etiny = Emin - 27\<close>.
\<close>

definition Emax :: int where
  "Emax = 999999"

definition Etiny :: int where
  "Etiny = - 1000026"

fun ndigits :: "nat \<Rightarrow> nat" where
  "ndigits n = (if n < 10 then 1 else Suc (ndigits (n div 10)))"

definition adjusted :: "rat \<Rightarrow> int" where
  "adjusted a =
     (case quotient_of a of
        (n, d) \<Rightarrow>
          (let k = int (ndigits (nat n)) - int (ndigits (nat d))
           in if 10 powi k \<le> a then k else k - 1))"

definition round_half_even :: "rat \<Rightarrow> int" where
  "round_half_even x =
     (let f = \<lfloor>x\<rfloor>
      in if x - of_int f < 1 / 2 then f
         else if 1 / 2 < x - of_int f then f + 1
         else if even f then f else f + 1)"

definition round_context :: "rat \<Rightarrow> exn + rat" where
  "round_context q =
     (if q = 0 then Inr 0
      else
        (let qe = max (adjusted \<bar>q\<bar> - 27) Etiny;
             v = of_int (round_half_even (\<bar>q\<bar> / 10 powi qe)) * 10 powi qe
         in if 10 powi (Emax + 1) \<le> v then Inl Overflow else Inr (sgn q * v)))"

text \<open>\<^verbatim>\<open>x / y\<close> on \<^verbatim>\<open>Decimal\<close>.\<close>

definition decimal_div :: "rat \<Rightarrow> rat \<Rightarrow> exn + rat" where
  "decimal_div x y =
     (if y = 0 then Inl (if x = 0 then InvalidOperation else DivisionByZero)
      else round_context (x / y))"

subsection \<open>Patterns\<close>

text \<open>
  The words with Vietnamese letters are written by their code points, as the source
  file has them (in the composed form NFC). In a pattern with named groups the groups
  are numbered in the order in which they are written.
\<close>

definition UNIT_MAP :: "(ustr \<times> ustr) list" where
  "UNIT_MAP =
     [(asc ''g'', asc ''g''), (asc ''gram'', asc ''g''), (asc ''gam'', asc ''g''),
      (asc ''kg'', asc ''kg''),
      (asc ''ml'', asc ''ml''),
      (asc ''l'', asc ''l''), (asc ''lit'', asc ''l''), ([108, 237, 116], asc ''l''),
      (asc ''tbsp'', asc ''tbsp''), (asc ''tsp'', asc ''tsp''),
      ([116, 104, 236, 97], [116, 104, 236, 97]),
      ([109, 117, 7895, 110, 103], [109, 117, 7895, 110, 103]),
      ([99, 7911], [99, 7911]), ([113, 117, 7843], [113, 117, 7843]), ([108, 225], [108, 225]),
      ([110, 104, 225, 110, 104], [110, 104, 225, 110, 104]), ([116, 233, 112], [116, 233, 112]),
      ([109, 105, 7871, 110, 103], [109, 105, 7871, 110, 103]), (asc ''khoanh'', asc ''khoanh''),
      ([103, 243, 105], [103, 243, 105]), ([104, 7897, 112], [104, 7897, 112]),
      (asc ''chai'', asc ''chai''), (asc ''lon'', asc ''lon''),
      ([98, 225, 116], [98, 225, 116]), ([99, 104, 233, 110], [99, 104, 233, 110])]"

text \<open>
  \<^verbatim>\<open>UNIT_PATTERN\<close>: \<^verbatim>\<open>kg|g|gram|gam|ml|l|lit|lit|tbsp|tsp|thia|muong|cu|qua|la|nhanh|tep|\<close>
  \<^verbatim>\<open>mieng|khoanh|goi|hop|chai|lon|bat|chen\<close>, with the accents that the code points give.
\<close>

definition UNIT_PATTERN :: regex where
  "UNIT_PATTERN = alt (map lit
     [asc ''kg'', asc ''g'', asc ''gram'', asc ''gam'', asc ''ml'', asc ''l'', [108, 237, 116],
      asc ''lit'', asc ''tbsp'', asc ''tsp'', [116, 104, 236, 97], [109, 117, 7895, 110, 103],
      [99, 7911], [113, 117, 7843], [108, 225], [110, 104, 225, 110, 104], [116, 233, 112],
      [109, 105, 7871, 110, 103], asc ''khoanh'', [103, 243, 105], [104, 7897, 112],
      asc ''chai'', asc ''lon'', [98, 225, 116], [99, 104, 233, 110]])"

text \<open>\<^verbatim>\<open>^[\s\-\*\+]+\<close> with the two bullets U+2022 and U+00B7 in the set.\<close>

definition RE_BULLET :: regex where
  "RE_BULLET = Cat Bol (Rep True 1 None (Is [Space, Ch 45, Ch 8226, Ch 42, Ch 43, Ch 183]))"

text \<open>\<^verbatim>\<open>\(([^)]{1,200})\)\<close>\<close>

definition RE_PARENS :: regex where
  "RE_PARENS = cat [Lit 40, Grp 1 (Rep True 1 (Some 200) (IsNot [Ch 41])), Lit 41]"

text \<open>
  \<^verbatim>\<open>^(?P<num>\d+)\s*/\s*(?P<den>\d+)\s*(?P<unit>UNIT_PATTERN)\b\s*(?P<rest>.*)$\<close>, compiled
  with \<^verbatim>\<open>re.IGNORECASE\<close>.
\<close>

definition RE_FRACTION_UNIT :: regex where
  "RE_FRACTION_UNIT =
     cat [Bol, Grp 1 (rx_plus Digit), rx_star Space, Lit 47, rx_star Space, Grp 2 (rx_plus Digit),
          rx_star Space, Grp 3 UNIT_PATTERN, WordB, rx_star Space, Grp 4 (rx_star Dot), Eol]"

text \<open>
  \<^verbatim>\<open>^(?P<val>\d+(?:[.,]\d+)?)\s*(?P<unit>UNIT_PATTERN)\b\s*(?P<rest>.*)$\<close>, compiled with
  \<^verbatim>\<open>re.IGNORECASE\<close>.
\<close>

definition RE_DECIMAL_UNIT :: regex where
  "RE_DECIMAL_UNIT =
     cat [Bol,
          Grp 1 (Cat (rx_plus Digit) (Alt (Cat (Set (Is [Ch 46, Ch 44])) (rx_plus Digit)) Eps)),
          rx_star Space, Grp 2 UNIT_PATTERN, WordB, rx_star Space, Grp 3 (rx_star Dot), Eol]"

text \<open>
  \<^verbatim>\<open>\b(vua\s*du|tuy\s*thich|tuy\s*thich|tuy|tuy|it|mot\s*it|neu\s*thich|khong\s*bat\s*buoc|\<close>
  \<^verbatim>\<open>co\s*the)\b\<close>, with the accents that the code points give (\<^verbatim>\<open>tuy\<close> is there in its
  two spellings), compiled with \<^verbatim>\<open>re.IGNORECASE\<close>.
\<close>

definition RE_NOTE_PHRASES :: regex where
  "RE_NOTE_PHRASES =
     cat [WordB,
          Grp 1 (alt
            [cat [lit [118, 7915, 97], rx_star Space, lit [273, 7911]],
             cat [lit [116, 249, 121], rx_star Space, lit [116, 104, 237, 99, 104]],
             cat [lit [116, 117, 7923], rx_star Space, lit [116, 104, 237, 99, 104]],
             lit [116, 249, 121],
             lit [116, 117, 7923],
             lit [237, 116],
             cat [lit [109, 7897, 116], rx_star Space, lit [237, 116]],
             cat [lit [110, 7871, 117], rx_star Space, lit [116, 104, 237, 99, 104]],
             cat [lit [107, 104, 244, 110, 103], rx_star Space, lit [98, 7855, 116], rx_star Space,
                  lit [98, 117, 7897, 99]],
             cat [lit [99, 243], rx_star Space, lit [116, 104, 7875]]]),
          WordB]"

text \<open>
  \<^verbatim>\<open>^(?P<name>.*?)(?:\s+(?P<mod>nho|to|vua|lon|tuoi|kho|bam\s*nho|bam|thai\s*nho|thai|xat|\<close>
  \<^verbatim>\<open>cat\s*lat|cat\s*nho|cat|xay|gia|dap\s*dap|rua\s*sach|got\s*vo|bo\s*vo|bo\s*hat))$\<close>, with the
  accents that the code points give, compiled with \<^verbatim>\<open>re.IGNORECASE\<close>.
\<close>

definition RE_SUFFIX_MOD :: regex where
  "RE_SUFFIX_MOD =
     cat [Bol, Grp 1 (Rep False 0 None (Is [Dot])), rx_plus Space,
          Grp 2 (alt
            [lit [110, 104, 7887],
             lit (asc ''to''),
             lit [118, 7915, 97],
             lit [108, 7899, 110],
             lit [116, 432, 417, 105],
             lit [107, 104, 244],
             cat [lit [98, 259, 109], rx_star Space, lit [110, 104, 7887]],
             lit [98, 259, 109],
             cat [lit [116, 104, 225, 105], rx_star Space, lit [110, 104, 7887]],
             lit [116, 104, 225, 105],
             lit [120, 7855, 116],
             cat [lit [99, 7855, 116], rx_star Space, lit [108, 225, 116]],
             cat [lit [99, 7855, 116], rx_star Space, lit [110, 104, 7887]],
             lit [99, 7855, 116],
             lit (asc ''xay''),
             lit [103, 105, 227],
             cat [lit [273, 7853, 112], rx_star Space, lit [100, 7853, 112]],
             cat [lit [114, 7917, 97], rx_star Space, lit [115, 7841, 99, 104]],
             cat [lit [103, 7885, 116], rx_star Space, lit [118, 7887]],
             cat [lit [98, 7887], rx_star Space, lit [118, 7887]],
             cat [lit [98, 7887], rx_star Space, lit [104, 7841, 116]]]),
          Eol]"

subsection \<open>The parser\<close>

text \<open>\<^verbatim>\<open>s.replace(old, new)\<close> for two characters.\<close>

definition py_replace :: "nat \<Rightarrow> nat \<Rightarrow> ustr \<Rightarrow> ustr" where
  "py_replace old new s = map (\<lambda>c. if c = old then new else c) s"

definition preclean_extract_parentheses :: "unidata \<Rightarrow> ustr \<Rightarrow> ustr \<times> ustr option" where
  "preclean_extract_parentheses U raw =
     (let s = py_replace 59 44 (normalize_spaces U (re_sub U False RE_BULLET [] (py_strip raw)));
          notes = re_findall U False RE_PARENS s
      in if notes \<noteq> [] then
           (let note = py_join (asc ''; '')
                         (map (normalize_spaces U) (filter (\<lambda>n. py_strip n \<noteq> []) notes))
            in (normalize_spaces U (re_sub U False RE_PARENS [] s),
                if note = [] then None else Some note))
         else (s, None))"

text \<open>\<^verbatim>\<open>parse_decimal\<close>: \<^verbatim>\<open>InvalidOperation\<close> is caught and gives \<^verbatim>\<open>None\<close>.\<close>

definition parse_decimal :: "unidata \<Rightarrow> ustr \<Rightarrow> rat option" where
  "parse_decimal U val = Decimal U (py_replace 44 46 val)"

definition normalize_unit :: "unidata \<Rightarrow> ustr \<Rightarrow> ustr option" where
  "normalize_unit U u =
     (if u = [] then None
      else Some (case map_of UNIT_MAP (str_lower U (py_strip u)) of
                   None \<Rightarrow> str_lower U (py_strip u)
                 | Some v \<Rightarrow> v))"

definition split_combo :: "unidata \<Rightarrow> ustr \<Rightarrow> ustr list" where
  "split_combo U text_main =
     (if 44 \<notin> set text_main then [text_main]
      else filter (\<lambda>p. p \<noteq> []) (map (normalize_spaces U) (py_split_on 44 text_main)))"

text \<open>
  \<^verbatim>\<open>parse_amount_unit_minimal\<close>. In the branch of the fraction nothing catches the
  exceptions of \<^verbatim>\<open>Decimal\<close>, so they are results (\<open>Inl\<close>).
\<close>

definition parse_amount_unit_minimal ::
  "unidata \<Rightarrow> ustr \<Rightarrow> exn + rat option \<times> ustr option \<times> ustr" where
  "parse_amount_unit_minimal U text_main =
     (let s = py_strip text_main in
      case re_match U True RE_FRACTION_UNIT s of
        Some m \<Rightarrow>
          (case Decimal U (group m 1) of
             None \<Rightarrow> Inl InvalidOperation
           | Some num \<Rightarrow>
               (case Decimal U (group m 2) of
                  None \<Rightarrow> Inl InvalidOperation
                | Some den \<Rightarrow>
                    if den \<noteq> 0 then
                      (case decimal_div num den of
                         Inl e \<Rightarrow> Inl e
                       | Inr a \<Rightarrow>
                           Inr (Some a, normalize_unit U (group m 3), normalize_spaces U (group m 4)))
                    else Inr (None, normalize_unit U (group m 3), normalize_spaces U (group m 4))))
      | None \<Rightarrow>
          (case re_match U True RE_DECIMAL_UNIT s of
             Some m \<Rightarrow>
               Inr (parse_decimal U (group m 1), normalize_unit U (group m 2),
                    normalize_spaces U (group m 3))
           | None \<Rightarrow> Inr (None, None, s)))"

text \<open>
  \<^verbatim>\<open>extract_key_and_note\<close>. \<open>add_phrases\<close> is the loop over \<^verbatim>\<open>phrases\<close>; the
  characters that \<^verbatim>\<open>s.strip(...)\<close> removes are the space, \<^verbatim>\<open>.\<close>, \<^verbatim>\<open>:\<close>, \<^verbatim>\<open>-\<close> and the two
  dashes U+2013 and U+2014.
\<close>

definition add_phrases :: "unidata \<Rightarrow> ustr list \<Rightarrow> ustr list \<Rightarrow> ustr list" where
  "add_phrases U phrases note_parts =
     foldl (\<lambda>np ph. if normalize_spaces U ph \<noteq> [] \<and> normalize_spaces U ph \<notin> set np
                     then np @ [normalize_spaces U ph] else np)
       note_parts phrases"

definition extract_key_and_note :: "unidata \<Rightarrow> ustr \<Rightarrow> ustr option \<Rightarrow> ustr \<times> ustr option" where
  "extract_key_and_note U rest note0 =
     (let s = normalize_spaces U rest;
          note_parts0 = (case note0 of None \<Rightarrow> [] | Some n \<Rightarrow> if n = [] then [] else [n]);
          phrases = re_findall U True RE_NOTE_PHRASES s;
          note_parts1 = add_phrases U phrases note_parts0;
          s1 = (if phrases \<noteq> [] then normalize_spaces U (re_sub U True RE_NOTE_PHRASES [] s) else s);
          m = re_match U True RE_SUFFIX_MOD s1;
          note_parts2 = (case m of
                           None \<Rightarrow> note_parts1
                         | Some g \<Rightarrow> if normalize_spaces U (group g 2) \<noteq> []
                                      then note_parts1 @ [normalize_spaces U (group g 2)]
                                      else note_parts1);
          s2 = (case m of None \<Rightarrow> s1 | Some g \<Rightarrow> normalize_spaces U (group g 1));
          s3 = normalize_spaces U (py_strip_chars [32, 46, 58, 45, 8211, 8212] s2)
      in (str_lower U s3,
          if note_parts2 \<noteq> [] then Some (py_join (asc ''; '') (filter (\<lambda>p. p \<noteq> []) note_parts2))
          else None))"

definition infer_role :: "unidata \<Rightarrow> ustr \<Rightarrow> ustr option \<Rightarrow> bool \<Rightarrow> ustr" where
  "infer_role U raw note is_combo =
     (if is_combo then asc ''optional''
      else if re_search U True RE_NOTE_PHRASES (str_lower U raw) then asc ''optional''
      else if (case note of
                 None \<Rightarrow> False
               | Some n \<Rightarrow> n \<noteq> [] \<and> re_search U True RE_NOTE_PHRASES (str_lower U n))
        then asc ''optional''
      else asc ''core'')"

record ParsedIngredient =
  pi_amount :: "rat option"
  pi_unit :: "ustr option"
  pi_key :: ustr
  pi_alias_norm :: ustr
  pi_note :: "ustr option"
  pi_role :: ustr

text \<open>
  \<^verbatim>\<open>parse_ingredient_text_phase1\<close>; \<open>parse_parts\<close> is its loop over \<^verbatim>\<open>parts\<close>, with the
  list \<^verbatim>\<open>out\<close> as state.
\<close>

fun parse_parts ::
  "unidata \<Rightarrow> ustr \<Rightarrow> ustr option \<Rightarrow> bool \<Rightarrow> ustr list \<Rightarrow> ParsedIngredient list \<Rightarrow>
   exn + ParsedIngredient list"
where
  "parse_parts U raw_text note0 is_combo [] out = Inr out"
| "parse_parts U raw_text note0 is_combo (part # parts) out =
     (if part = [] then parse_parts U raw_text note0 is_combo parts out
      else
        (case parse_amount_unit_minimal U part of
           Inl e \<Rightarrow> Inl e
         | Inr (amount, u, rest) \<Rightarrow>
             (case extract_key_and_note U rest note0 of
                (key, note) \<Rightarrow>
                  if key = [] then parse_parts U raw_text note0 is_combo parts out
                  else if re_search U False RE_DIGIT key then
                    parse_parts U raw_text note0 is_combo parts out
                  else
                    parse_parts U raw_text note0 is_combo parts
                      (out @ [\<lparr> pi_amount = amount, pi_unit = u, pi_key = key,
                                 pi_alias_norm = normalize_alias_norm U key, pi_note = note,
                                 pi_role = infer_role U raw_text note is_combo \<rparr>]))))"

definition parse_ingredient_text_phase1 :: "unidata \<Rightarrow> ustr \<Rightarrow> exn + ParsedIngredient list" where
  "parse_ingredient_text_phase1 U raw_text =
     (case preclean_extract_parentheses U raw_text of
        (text_main, note0) \<Rightarrow>
          parse_parts U raw_text note0 (1 < length (split_combo U text_main))
            (split_combo U text_main) [])"

section \<open>Notions used in the proofs\<close>

text \<open>
  \<open>squash p rep\<close> replaces every maximal run of characters that satisfy \<open>p\<close> by \<open>rep\<close>
  (the flag says that the character before was one of the run): what \<^verbatim>\<open>re.sub\<close> does
  for a pattern \<^verbatim>\<open>[...]+\<close>, as \<open>re_sub_plus\<close> shows. \<open>squeeze\<close> does it for the
  characters other than \<^verbatim>\<open>a-z0-9\<close>, with one space.
\<close>

fun squash :: "(nat \<Rightarrow> bool) \<Rightarrow> ustr \<Rightarrow> bool \<Rightarrow> ustr \<Rightarrow> ustr" where
  "squash p rep inrun [] = []"
| "squash p rep inrun (c # cs) =
     (if p c then (if inrun then squash p rep True cs else rep @ squash p rep True cs)
      else c # squash p rep False cs)"

definition is_az09 :: "nat \<Rightarrow> bool" where
  "is_az09 c \<longleftrightarrow> (97 \<le> c \<and> c \<le> 122) \<or> (48 \<le> c \<and> c \<le> 57)"

definition squeeze :: "ustr \<Rightarrow> ustr" where
  "squeeze z = squash (\<lambda>c. \<not> is_az09 c) [32] False z"

text \<open>A text of the characters \<^verbatim>\<open>a-z\<close>, \<^verbatim>\<open>0-9\<close> and the space.\<close>

definition plain :: "ustr \<Rightarrow> bool" where
  "plain t \<longleftrightarrow> list_all (\<lambda>c. is_az09 c \<or> c = 32) t"

text \<open>
  What the proofs need of the Unicode database: lowercasing and the normal forms leave a
  text of \<^verbatim>\<open>a-z\<close>, \<^verbatim>\<open>0-9\<close> and spaces as it is, and no ASCII character is a
  nonspacing mark.
\<close>

definition ascii_stable :: "unidata \<Rightarrow> bool" where
  "ascii_stable U \<longleftrightarrow>
     (\<forall>t. plain t \<longrightarrow> str_lower U t = t \<and> normalize_NFD U t = t \<and> normalize_NFC U t = t) \<and>
     (\<forall>c. c < 128 \<longrightarrow> \<not> category_Mn U c)"

text \<open>No two spaces in a row.\<close>

definition nodbl :: "ustr \<Rightarrow> bool" where
  "nodbl y \<longleftrightarrow> \<not> (\<exists>a b. y = a @ 32 # 32 # b)"

text \<open>Words: not empty, of \<^verbatim>\<open>a-z\<close> and \<^verbatim>\<open>0-9\<close> only.\<close>

definition words_ok :: "ustr list \<Rightarrow> bool" where
  "words_ok ws \<longleftrightarrow> list_all (\<lambda>w. w \<noteq> [] \<and> list_all is_az09 w) ws"

text \<open>
  Recomposition does not touch the runs of \<^verbatim>\<open>a-z0-9\<close> of a text without nonspacing
  marks: in Unicode an ASCII letter or digit composes with nonspacing marks only.
\<close>

definition nfc_neutral :: "unidata \<Rightarrow> bool" where
  "nfc_neutral U \<longleftrightarrow>
     (\<forall>t. list_all (\<lambda>c. \<not> category_Mn U c) t \<longrightarrow> squeeze (normalize_NFC U t) = squeeze t)"

subsection \<open>The Merge Executor\<close>

text \<open>The columns of the unique constraint of \<^verbatim>\<open>recipe_ingredients\<close>.\<close>

definition ri_key :: "recipe_ingredient \<Rightarrow> ustr \<times> ustr" where
  "ri_key r = (ri_recipe_id r, ri_ingredient_id r)"



definition join_row :: "string \<Rightarrow> string \<Rightarrow> string \<Rightarrow> string \<Rightarrow> recipe_ingredient" where
  "join_row rid iid note role =
     \<lparr> ri_recipe_id = asc rid, ri_ingredient_id = asc iid, ri_amount = None, ri_unit = None,
       ri_note = Some (asc note), ri_role = Some (asc role) \<rparr>"



subsection \<open>The Candidate Generator\<close>

text \<open>
  For the examples: a ratio that is the one of \<^verbatim>\<open>difflib\<close> on equal strings, where
  \<^verbatim>\<open>SequenceMatcher(None, a, a).ratio()\<close> is \<^verbatim>\<open>1.0\<close> (the examples compare equal
  normalized keys only); two ingredients whose keys differ by a hyphen, with their
  usage counts; and the suggestion the generator makes of them.
\<close>

definition ratio_example :: "ustr \<Rightarrow> ustr \<Rightarrow> rat" where
  "ratio_example a b = (if a = b then 1 else 0)"

definition canh_rows :: "IngredientRow list" where
  "canh_rows =
     [\<lparr> ing_id = asc ''1'', ing_key = asc ''canh chanh'',
        ing_norm = normalize_key vn_unidata (asc ''canh chanh''), used_count = 3 \<rparr>,
      \<lparr> ing_id = asc ''2'', ing_key = asc ''canh-chanh'',
        ing_norm = normalize_key vn_unidata (asc ''canh-chanh''), used_count = 1 \<rparr>]"

definition canh_suggestion :: Suggestion where
  "canh_suggestion =
     \<lparr> canonical_id = asc ''1'', canonical_key = asc ''canh chanh'', alias_id = asc ''2'',
       alias_key = asc ''canh-chanh'', score = 1, used_count_canonical = 3, used_count_alias = 1,
       reason = (1, Bucket 99 10) \<rparr>"


subsection \<open>The Collision Resolver\<close>

text \<open>
  What psycopg2 promises of a connection, for a reading \<open>saved\<close> of the world (what has
  been committed through this connection): a transaction that raises commits nothing,
  and \<^verbatim>\<open>conn.rollback()\<close> undoes nothing that was committed.
\<close>

definition keeps_committed :: "'w conn \<Rightarrow> ('w \<Rightarrow> 'c) \<Rightarrow> bool" where
  "keeps_committed C saved \<longleftrightarrow>
     (\<forall>w. saved (rollback C w) = saved w) \<and>
     (\<forall>w an cid dry w' e. transaction C w an cid dry = (w', Inl e) \<longrightarrow> saved w' = saved w)"

section \<open>Collision Resolver: bounded retry\<close>

lemma attempts_violations3:
  assumes "violations C dry r 3 w = Some w3"
  shows "retry_group C dry r w = (w3, Inl UniqueViolation)"
  using assms
  by (auto simp: retry_group_def numeral_3_eq_3 Let_def
           split: prod.splits sum.splits exn.splits)

lemma run_rows_append:
  "run_rows C dry (xs @ ys) tot w out =
     (case run_rows C dry xs tot w out of
        (w', out', Inl e) \<Rightarrow> (w', out', Inl e)
      | (w', out', Inr tot') \<Rightarrow> run_rows C dry ys tot' w' out')"
  by (induction C dry xs tot w out rule: run_rows.induct)
     (auto simp: Let_def split: prod.splits sum.splits)

lemma retry_group_success:
  assumes "n < 3" and "violations C dry r n w = Some w2"
    and "transaction C w2 (row_alias_norm r) (row_canonical_id r) dry = (w3, Inr st)"
  shows "retry_group C dry r w = (w3, Inr st)"
proof -
  from \<open>n < 3\<close> consider "n = 0" | "n = Suc 0" | "n = Suc (Suc 0)" by linarith
  then show ?thesis
    using assms(2,3)
    by cases (auto simp: retry_group_def Let_def split: prod.splits sum.splits exn.splits)
qed

lemma violations_keep_committed:
  assumes "keeps_committed C saved" and "violations C dry r n w = Some w'"
  shows "saved w' = saved w"
  using assms(2)
proof (induction n arbitrary: w)
  case 0
  then show ?case by simp
next
  case (Suc n)
  obtain v res where t: "transaction C w (row_alias_norm r) (row_canonical_id r) dry = (v, res)"
    by (cases "transaction C w (row_alias_norm r) (row_canonical_id r) dry")
  with Suc.prems have res: "res = Inl UniqueViolation"
    and v: "violations C dry r n (rollback C v) = Some w'"
    by (auto split: sum.splits exn.splits)
  from t res assms(1) have "saved v = saved w"
    unfolding keeps_committed_def by blast
  moreover from assms(1) have "saved (rollback C v) = saved v"
    unfolding keeps_committed_def by blast
  ultimately show ?case
    using Suc.IH [OF v] by simp
qed

text \<open>
  C4, as the code has it. Let the rows before the group \<open>r\<close> be processed without an
  exception, leaving the world \<open>w1\<close>. (1) If fewer than three attempts on \<open>r\<close> in a row
  raise \<^verbatim>\<open>UniqueViolation\<close> and the next one commits, the group is processed: its line
  is printed, its statistics are added, and the loop goes on with the rows after it.
  (2) If three attempts in a row raise \<^verbatim>\<open>UniqueViolation\<close>, the third is raised out
  of \<^verbatim>\<open>run_apply\<close>: the result is the exception whatever rows follow, and none of
  them is attempted (the world is the one the third rollback left). (3) In that case the
  groups committed before stay committed: on a connection whose failed transactions and
  rollbacks leave the committed data alone, what is committed at the end is what was
  committed in \<open>w1\<close>, and the lines printed for the rows before \<open>r\<close> are the output.
\<close>

theorem C4_retry_then_abort:
  assumes "is_group r"
    and "run_rows C dry pre tot w out = (w1, out1, Inr tot1)"
  shows "(\<forall>n w2 w3 st. n < 3 \<and> violations C dry r n w1 = Some w2 \<and>
            transaction C w2 (row_alias_norm r) (row_canonical_id r) dry = (w3, Inr st) \<longrightarrow>
            run_rows C dry (pre @ (idx, r) # post) tot w out =
              run_rows C dry post (add_stats (tot1\<lparr>alias_norms := alias_norms tot1 + 1\<rparr>) st)
                w3 (out1 @ [idx])) \<and>
         (\<forall>w4. violations C dry r 3 w1 = Some w4 \<longrightarrow>
            run_rows C dry (pre @ (idx, r) # post) tot w out = (w4, out1, Inl UniqueViolation)) \<and>
         (\<forall>w4. keeps_committed C saved \<and> violations C dry r 3 w1 = Some w4 \<longrightarrow>
            saved (fst (run_rows C dry (pre @ (idx, r) # post) tot w out)) = saved w1)"
proof (intro conjI allI impI)
  fix n w2 w3 st
  assume h: "n < 3 \<and> violations C dry r n w1 = Some w2 \<and>
    transaction C w2 (row_alias_norm r) (row_canonical_id r) dry = (w3, Inr st)"
  then have "retry_group C dry r w1 = (w3, Inr st)"
    by (intro retry_group_success [where n = n and ?w2.0 = w2]) simp_all
  then show "run_rows C dry (pre @ (idx, r) # post) tot w out =
      run_rows C dry post (add_stats (tot1\<lparr>alias_norms := alias_norms tot1 + 1\<rparr>) st)
        w3 (out1 @ [idx])"
    using assms by (simp add: run_rows_append is_group_def Let_def)
next
  fix w4
  assume "violations C dry r 3 w1 = Some w4"
  then have "retry_group C dry r w1 = (w4, Inl UniqueViolation)"
    by (rule attempts_violations3)
  then show "run_rows C dry (pre @ (idx, r) # post) tot w out = (w4, out1, Inl UniqueViolation)"
    using assms by (simp add: run_rows_append is_group_def Let_def)
next
  fix w4
  assume h: "keeps_committed C saved \<and> violations C dry r 3 w1 = Some w4"
  then have "retry_group C dry r w1 = (w4, Inl UniqueViolation)"
    by (intro attempts_violations3) simp
  then have "run_rows C dry (pre @ (idx, r) # post) tot w out = (w4, out1, Inl UniqueViolation)"
    using assms by (simp add: run_rows_append is_group_def Let_def)
  moreover from h have "saved w4 = saved w1"
    by (intro violations_keep_committed [where C = C and dry = dry and r = r and n = 3]) simp_all
  ultimately show "saved (fst (run_rows C dry (pre @ (idx, r) # post) tot w out)) = saved w1"
    by simp
qed

lemma keeps_committed_sched: "keeps_committed sched_conn committed"
  by (auto simp: keeps_committed_def sched_conn_def split: if_splits)

text \<open>
  The batch holds the groups \<^verbatim>\<open>hanh\<close>, \<^verbatim>\<open>ca rot\<close> and \<^verbatim>\<open>toi\<close>. When two attempts on
  \<^verbatim>\<open>ca rot\<close> fail, the third commits and the three groups are processed. When three
  fail, \<^verbatim>\<open>hanh\<close> stays committed, its line stays printed, and \<^verbatim>\<open>toi\<close> is never
  attempted.
\<close>

theorem C4_retry_then_abort_witness:
  "run_rows sched_conn False
     ([(1, auto_row ''hanh'' ''1'')] @ (2, auto_row ''ca rot'' ''2'') # [(3, auto_row ''toi'' ''3'')])
     total0 (sched0 [False, True, True]) [] =
     (\<lparr>schedule = [],
       attempted = [asc ''hanh'', asc ''ca rot'', asc ''ca rot'', asc ''ca rot'', asc ''toi''],
       committed = [asc ''hanh'', asc ''ca rot'', asc ''toi'']\<rparr>,
      [1, 2, 3], Inr (total0\<lparr>alias_norms := 3, aliases := 3\<rparr>)) \<and>
   run_rows sched_conn False
     ([(1, auto_row ''hanh'' ''1'')] @ (2, auto_row ''ca rot'' ''2'') # [(3, auto_row ''toi'' ''3'')])
     total0 (sched0 [False, True, True, True]) [] =
     (\<lparr>schedule = [],
       attempted = [asc ''hanh'', asc ''ca rot'', asc ''ca rot'', asc ''ca rot''],
       committed = [asc ''hanh'']\<rparr>,
      [1], Inl UniqueViolation) \<and>
   committed (fst (run_rows sched_conn False
     ([(1, auto_row ''hanh'' ''1'')] @ (2, auto_row ''ca rot'' ''2'') # [(3, auto_row ''toi'' ''3'')])
     total0 (sched0 [False, True, True, True]) [])) = [asc ''hanh'']"
proof -
  let ?h = "auto_row ''hanh'' ''1''"
  let ?r = "auto_row ''ca rot'' ''2''"
  let ?post = "[(3::nat, auto_row ''toi'' ''3'')]"
  let ?st = "\<lparr> st_aliases = 1, st_ri_conflicts_deleted = 0, st_ri_updated = 0,
               st_ingredients_deleted = 0 \<rparr>"
  let ?tot1 = "add_stats (total0\<lparr>alias_norms := alias_norms total0 + 1\<rparr>) ?st"
  let ?w1 = "\<lambda>bs. \<lparr>schedule = bs, attempted = [asc ''hanh''], committed = [asc ''hanh'']\<rparr>"
  let ?w2 = "\<lparr>schedule = [], attempted = [asc ''hanh'', asc ''ca rot'', asc ''ca rot''],
              committed = [asc ''hanh'']\<rparr>"
  let ?w3 = "\<lparr>schedule = [], attempted = [asc ''hanh'', asc ''ca rot'', asc ''ca rot'', asc ''ca rot''],
              committed = [asc ''hanh'', asc ''ca rot'']\<rparr>"
  let ?w4 = "\<lparr>schedule = [], attempted = [asc ''hanh'', asc ''ca rot'', asc ''ca rot'', asc ''ca rot''],
              committed = [asc ''hanh'']\<rparr>"
  have g: "is_group ?r"
    by (simp add: is_group_def auto_row_def asc_def)
  have pre: "run_rows sched_conn False [(1, ?h)] total0 (sched0 (False # bs)) [] =
      (?w1 bs, [1], Inr ?tot1)" for bs
    by (simp add: retry_group_def sched_conn_def sched0_def auto_row_def asc_def)
  have v2: "violations sched_conn False ?r 2 (?w1 [True, True]) = Some ?w2"
    by (simp add: numeral_2_eq_2 sched_conn_def auto_row_def)
  have t: "transaction sched_conn ?w2 (row_alias_norm ?r) (row_canonical_id ?r) False =
      (?w3, Inr ?st)"
    by (simp add: sched_conn_def auto_row_def)
  have v3: "violations sched_conn False ?r 3 (?w1 [True, True, True]) = Some ?w4"
    by (simp add: numeral_3_eq_3 sched_conn_def auto_row_def)
  have "run_rows sched_conn False ([(1, ?h)] @ (2, ?r) # ?post) total0 (sched0 [False, True, True]) [] =
      run_rows sched_conn False ?post (add_stats (?tot1\<lparr>alias_norms := alias_norms ?tot1 + 1\<rparr>) ?st)
        ?w3 ([1] @ [2])"
    using C4_retry_then_abort [OF g pre, of "[True, True]" 2 ?post, THEN conjunct1, rule_format,
        of 2 ?w2 ?w3 ?st] v2 t
    by simp
  moreover
  have "run_rows sched_conn False ([(1, ?h)] @ (2, ?r) # ?post) total0
          (sched0 [False, True, True, True]) [] = (?w4, [1], Inl UniqueViolation)"
    using C4_retry_then_abort [OF g pre, of "[True, True, True]" 2 ?post, THEN conjunct2,
        THEN conjunct1, rule_format, of ?w4] v3
    by simp
  moreover
  have "committed (fst (run_rows sched_conn False ([(1, ?h)] @ (2, ?r) # ?post) total0
          (sched0 [False, True, True, True]) [])) = committed (?w1 [True, True, True])"
    using C4_retry_then_abort [OF g pre, of "[True, True, True]" 2 ?post committed,
        THEN conjunct2, THEN conjunct2, rule_format, of ?w4] v3 keeps_committed_sched
    by simp
  ultimately show ?thesis
    by (simp add: retry_group_def sched_conn_def auto_row_def total0_def add_stats_def asc_def)
qed

text \<open>
  C4 as stated fails: the batch holds the groups \<^verbatim>\<open>hanh\<close>, \<^verbatim>\<open>ca rot\<close> and \<^verbatim>\<open>toi\<close>;
  \<^verbatim>\<open>hanh\<close> is committed, the three attempts on \<^verbatim>\<open>ca rot\<close> raise
  \<^verbatim>\<open>UniqueViolation\<close>. \<^verbatim>\<open>run_apply\<close> ends with the exception, the only line printed
  is the one of \<^verbatim>\<open>hanh\<close>, and the transaction of the group \<^verbatim>\<open>toi\<close> is never
  attempted.
\<close>

theorem C4_counterexample:
  "is_group (auto_row ''toi'' ''3'') \<and>
   run_apply sched_conn [auto_row ''hanh'' ''1'', auto_row ''ca rot'' ''2'', auto_row ''toi'' ''3'']
     False (sched0 [False, True, True, True]) =
     (\<lparr>schedule = [],
       attempted = [asc ''hanh'', asc ''ca rot'', asc ''ca rot'', asc ''ca rot''],
       committed = [asc ''hanh'']\<rparr>,
      [1], Inl UniqueViolation)"
  by (simp add: run_apply_def retry_group_def is_group_def auto_row_def sched0_def asc_def
        sched_conn_def total0_def add_stats_def)

section \<open>Regular expressions: substitution of a repeated set\<close>

lemma finditer_skip:
  "k \<le> length rest \<Longrightarrow>
   finditer U ic rx d rest gap k = finditer U ic rx (rev (take k rest) @ d) (drop k rest) gap 0"
proof (induction rest arbitrary: k d)
  case Nil
  then show ?case by simp
next
  case (Cons x xs)
  show ?case
  proof (cases k)
    case 0
    then show ?thesis by simp
  next
    case (Suc j)
    with Cons.prems have "j \<le> length xs" by simp
    from Cons.IH [OF this, of "x # d"] Suc show ?thesis by simp
  qed
qed

lemma rx_run_plus_None:
  "\<not> (\<exists>x xs. r = x # xs \<and> cset_match U cs x) \<Longrightarrow> rx_run U ic (Rep True (Suc 0) None cs) (d, r, g) = []"
  by (cases r) (auto simp: rep_counts_def)

lemma rep_counts_plus_Suc:
  "rep_counts True (Suc 0) None (Suc m) = Suc m # rep_counts True (Suc 0) None m"
proof -
  have "[Suc 0 ..< Suc (Suc m)] = [Suc 0 ..< Suc m] @ [Suc m]"
    by (rule upt_Suc_append) simp
  then show ?thesis
    by (simp add: rep_counts_def del: upt_Suc)
qed

lemma rx_run_plus_Some:
  assumes "cset_match U cs x"
  shows "\<exists>rest. rx_run U ic (Rep True (Suc 0) None cs) (d, x # xs, g) =
     (rev (takeWhile (cset_match U cs) (x # xs)) @ d, dropWhile (cset_match U cs) (x # xs), g) # rest"
proof -
  have n: "length (takeWhile (cset_match U cs) (x # xs)) = Suc (length (takeWhile (cset_match U cs) xs))"
    using assms by simp
  have tk: "take (length (takeWhile (cset_match U cs) ys)) ys = takeWhile (cset_match U cs) ys" for ys
    by (rule takeWhile_eq_take [symmetric])
  have dr: "drop (length (takeWhile (cset_match U cs) ys)) ys = dropWhile (cset_match U cs) ys" for ys
    by (rule dropWhile_eq_drop [symmetric])
  show ?thesis
    unfolding rx_run.simps n rep_counts_plus_Suc list.map
    using assms by (simp add: tk dr)
qed

lemma sub_plus_aux:
  "(case finditer U ic (Rep True (Suc 0) None cs) d rest gap 0 of
      (ms, t) \<Rightarrow> concat (map (\<lambda>(gap, mt, g). gap @ rep) ms) @ t) =
   rev gap @ squash (cset_match U cs) rep False rest"
proof (induction "length rest" arbitrary: rest d gap rule: less_induct)
  case less
  show ?case
  proof (cases rest)
    case Nil
    then show ?thesis by (simp add: rep_counts_def)
  next
    case (Cons x xs)
    show ?thesis
    proof (cases "cset_match U cs x")
      case False
      then have "rx_run U ic (Rep True (Suc 0) None cs) (d, x # xs, []) = []"
        by (intro rx_run_plus_None) simp
      moreover have "length xs < length rest" using Cons by simp
      ultimately show ?thesis
        using less [of xs "x # d" "x # gap"] Cons False by simp
    next
      case True
      let ?p = "cset_match U cs"
      from rx_run_plus_Some [OF True] obtain more where
        run: "rx_run U ic (Rep True (Suc 0) None cs) (d, x # xs, []) =
          (rev (takeWhile ?p (x # xs)) @ d, dropWhile ?p (x # xs), []) # more"
        by blast
      have len: "length (rev (takeWhile ?p (x # xs)) @ d) - length d = Suc (length (takeWhile ?p xs))"
        using True by simp
      have k: "length (takeWhile ?p xs) \<le> length xs"
        by (rule length_takeWhile_le)
      have lt: "length (dropWhile ?p xs) < length rest"
        using Cons by (simp add: le_imp_less_Suc length_dropWhile_le)
      have sq: "squash ?p rep True ys = squash ?p rep False (dropWhile ?p ys)" for ys
        by (induction ys) auto
      show ?thesis
        using less [OF lt, of "rev (take (length (takeWhile ?p xs)) xs) @ x # d" "[]"]
          run len True Cons finditer_skip [OF k, of U ic "Rep True (Suc 0) None cs" "x # d" "[]"]
        by (simp add: sq dropWhile_eq_drop [symmetric] split: prod.splits)
    qed
  qed
qed

lemma re_sub_plus:
  "re_sub U ic (Rep True (Suc 0) None cs) rep s = squash (cset_match U cs) rep False s"
  using sub_plus_aux [where d = "[]" and gap = "[]" and rest = s and U = U and ic = ic and cs = cs and rep = rep] by (simp add: re_sub_def)

section \<open>Normalizer: the three functions\<close>

lemma az09_not_space: "is_az09 c \<Longrightarrow> \<not> is_space c"
  by (auto simp: is_az09_def is_space_def)

lemma space_32: "is_space 32"
  by (simp add: is_space_def)

lemma not_az09_32: "\<not> is_az09 32"
  by (simp add: is_az09_def)

lemma cset_non_alnum: "cset_match U (IsNot [Rng 97 122, Rng 48 57]) c = (\<not> is_az09 c)"
  by (simp add: is_az09_def)

lemma cset_non_alnum_space:
  "cset_match U (IsNot [Rng 97 122, Rng 48 57, Space]) c = (\<not> is_az09 c \<and> \<not> is_space c)"
  by (simp add: is_az09_def)

lemma cset_space: "cset_match U (Is [Space]) c = is_space c"
  by simp

lemma squash_space_after:
  "(e \<longrightarrow> f) \<Longrightarrow>
   squash is_space [32] f (squash (\<lambda>c. \<not> is_az09 c) [32] e t) = squash (\<lambda>c. \<not> is_az09 c) [32] f t"
  by (induction t arbitrary: e f) (auto simp: space_32 az09_not_space)

lemma squash_space_after_keep:
  "(e \<longrightarrow> f) \<Longrightarrow>
   squash is_space [32] f (squash (\<lambda>c. \<not> is_az09 c \<and> \<not> is_space c) [32] e t) =
   squash (\<lambda>c. \<not> is_az09 c) [32] f t"
  by (induction t arbitrary: e f) (auto simp: space_32 az09_not_space)

lemma normalize_alias_norm_squeeze:
  "normalize_alias_norm U key = py_strip (squeeze (remove_accents U (str_lower U key)))"
  by (simp add: normalize_alias_norm_def normalize_spaces_def RE_SPACES_def rx_plus_def RE_NON_ALNUM_def
      re_sub_plus asc_def squeeze_def squash_space_after cset_non_alnum [abs_def] cset_space [abs_def])

lemma norm_text_squeeze:
  "norm_text U s = (if s = [] then [] else
     py_strip (squeeze (filter (\<lambda>c. \<not> category_Mn U c) (normalize_NFD U (str_lower U s)))))"
  by (simp add: norm_text_def RE_NON_ALNUM_def re_sub_plus asc_def squeeze_def cset_non_alnum [abs_def])

lemma normalize_key_squeeze:
  "normalize_key U s0 =
     (let s4 = py_strip (squeeze (remove_accents U (str_lower U (py_strip s0))))
      in if s4 = [] then [] else py_join [32] (key_tokens (py_split s4)))"
  by (simp add: normalize_key_def RE_SPACES_def rx_plus_def RE_NON_ALNUM_SPACE_def Let_def
      re_sub_plus asc_def squeeze_def squash_space_after_keep cset_non_alnum_space [abs_def] cset_space [abs_def])

lemma normalize_key_via_alias_norm:
  "normalize_key U x = py_join (asc '' '') (key_tokens (py_split (normalize_alias_norm U (py_strip x))))"
  by (simp add: normalize_key_squeeze normalize_alias_norm_squeeze Let_def py_split_def asc_def)

lemma plain_Nil [simp]: "plain []"
  by (simp add: plain_def)

lemma plain_squash: "plain (squash (\<lambda>c. \<not> is_az09 c) [32] e z)"
  by (induction z arbitrary: e) (auto simp: plain_def)

lemma plain_squeeze: "plain (squeeze z)"
  by (simp add: squeeze_def plain_squash)

lemma plain_strip: "plain y \<Longrightarrow> plain (py_strip y)"
  by (auto simp: plain_def py_strip_def list_all_iff dest!: set_dropWhileD)

lemma plain_lt: "plain t \<Longrightarrow> c \<in> set t \<Longrightarrow> c < 128"
  by (auto simp: plain_def list_all_iff is_az09_def)

lemma stable_remove_accents:
  assumes "ascii_stable U" and "plain t"
  shows "remove_accents U (str_lower U t) = t"
proof -
  from assms have l: "str_lower U t = t" and d: "normalize_NFD U t = t" and c: "normalize_NFC U t = t"
    by (auto simp: ascii_stable_def)
  have "filter (\<lambda>ch. \<not> category_Mn U ch) t = t"
    using assms plain_lt [OF assms(2)] by (auto simp: ascii_stable_def filter_id_conv)
  then show ?thesis
    by (simp add: remove_accents_def l d c)
qed

lemma strip_infix: "\<exists>a b. y = a @ py_strip y @ b"
proof -
  let ?u = "dropWhile is_space y"
  have "rev ?u = takeWhile is_space (rev ?u) @ dropWhile is_space (rev ?u)"
    by simp
  then have "?u = rev (dropWhile is_space (rev ?u)) @ rev (takeWhile is_space (rev ?u))"
    by (metis rev_append rev_rev_ident)
  then have "y = takeWhile is_space y @ py_strip y @ rev (takeWhile is_space (rev ?u))"
    by (metis py_strip_def takeWhile_dropWhile_id)
  then show ?thesis by blast
qed

lemma nodbl_infix: "nodbl (a @ y @ b) \<Longrightarrow> nodbl y"
  unfolding nodbl_def
  by (metis append.assoc append_Cons)

lemma nodbl_strip: "nodbl y \<Longrightarrow> nodbl (py_strip y)"
  using strip_infix [of y] nodbl_infix by metis

lemma nodbl_Cons:
  "nodbl (c # r) \<longleftrightarrow> nodbl r \<and> \<not> (c = 32 \<and> r \<noteq> [] \<and> hd r = 32)"
proof
  assume h: "nodbl (c # r)"
  have "nodbl r"
    using h unfolding nodbl_def by (metis append_Cons)
  moreover have "\<not> (c = 32 \<and> r \<noteq> [] \<and> hd r = 32)"
  proof
    assume "c = 32 \<and> r \<noteq> [] \<and> hd r = 32"
    then have "c # r = [] @ 32 # 32 # tl r" by (cases r) auto
    with h show False unfolding nodbl_def by blast
  qed
  ultimately show "nodbl r \<and> \<not> (c = 32 \<and> r \<noteq> [] \<and> hd r = 32)" by simp
next
  assume h: "nodbl r \<and> \<not> (c = 32 \<and> r \<noteq> [] \<and> hd r = 32)"
  show "nodbl (c # r)"
    unfolding nodbl_def
  proof
    assume "\<exists>a b. c # r = a @ 32 # 32 # b"
    then obtain a b where e: "c # r = a @ 32 # 32 # b" by blast
    show False
    proof (cases a)
      case Nil
      with e h show False by auto
    next
      case (Cons a0 a')
      with e have "r = a' @ 32 # 32 # b" by simp
      with h show False unfolding nodbl_def by blast
    qed
  qed
qed

lemma nodbl_Nil [simp]: "nodbl []"
  by (simp add: nodbl_def)

lemma nodbl_squash:
  "nodbl (squash (\<lambda>c. \<not> is_az09 c) [32] e z) \<and>
   (e \<longrightarrow> squash (\<lambda>c. \<not> is_az09 c) [32] e z = [] \<or> hd (squash (\<lambda>c. \<not> is_az09 c) [32] e z) \<noteq> 32)"
proof (induction z arbitrary: e)
  case Nil
  show ?case by simp
next
  case (Cons c cs)
  show ?case
  proof (cases "is_az09 c")
    case True
    then have "c \<noteq> 32" using not_az09_32 by auto
    with True Cons [of False] show ?thesis by (simp add: nodbl_Cons)
  next
    case False
    with Cons [of True] show ?thesis by (cases e) (auto simp: nodbl_Cons)
  qed
qed

lemma squash_fix:
  "plain y \<Longrightarrow> nodbl y \<Longrightarrow> (e \<longrightarrow> y = [] \<or> hd y \<noteq> 32) \<Longrightarrow>
   squash (\<lambda>c. \<not> is_az09 c) [32] e y = y"
proof (induction y arbitrary: e)
  case Nil
  show ?case by simp
next
  case (Cons c cs)
  from Cons.prems(1) have pc: "is_az09 c \<or> c = 32" and pcs: "plain cs"
    by (simp_all add: plain_def)
  from Cons.prems(2) have n: "nodbl cs" and nn: "\<not> (c = 32 \<and> cs \<noteq> [] \<and> hd cs = 32)"
    by (simp_all add: nodbl_Cons)
  show ?case
  proof (cases "is_az09 c")
    case True
    with Cons.IH [OF pcs n, of False] show ?thesis by simp
  next
    case False
    with pc have c: "c = 32" by simp
    with Cons.prems(3) have e: "\<not> e" by simp
    from nn c have "cs = [] \<or> hd cs \<noteq> 32" by auto
    with Cons.IH [OF pcs n, of True] False e c show ?thesis by simp
  qed
qed

lemma squeeze_strip_squeeze: "squeeze (py_strip (squeeze z)) = py_strip (squeeze z)"
proof -
  have "plain (py_strip (squeeze z))"
    by (simp add: plain_strip plain_squeeze)
  moreover have "nodbl (py_strip (squeeze z))"
    using nodbl_squash [of False z] by (simp add: nodbl_strip squeeze_def)
  ultimately show ?thesis
    unfolding squeeze_def [of "py_strip (squeeze z)"] by (intro squash_fix) simp_all
qed

lemma strip_fix:
  "y = [] \<or> (\<not> is_space (hd y) \<and> \<not> is_space (last y)) \<Longrightarrow> py_strip y = y"
proof (cases "y = []")
  case True
  then show ?thesis by (simp add: py_strip_def)
next
  case False
  assume "y = [] \<or> (\<not> is_space (hd y) \<and> \<not> is_space (last y))"
  with False have h: "\<not> is_space (hd y)" and l: "\<not> is_space (last y)" by simp_all
  from h have 1: "dropWhile is_space y = y"
    by (simp add: dropWhile_eq_self_iff)
  from l False have 2: "dropWhile is_space (rev y) = rev y"
    by (simp add: dropWhile_eq_self_iff hd_rev)
  show ?thesis by (simp add: py_strip_def 1 2)
qed

lemma strip_ends:
  "py_strip y = [] \<or> (\<not> is_space (hd (py_strip y)) \<and> \<not> is_space (last (py_strip y)))"
proof (cases "py_strip y = []")
  case True
  then show ?thesis by simp
next
  case False
  let ?u = "dropWhile is_space y"
  let ?v = "dropWhile is_space (rev ?u)"
  have v: "?v \<noteq> []" using False by (simp add: py_strip_def)
  then have 1: "\<not> is_space (hd ?v)" by (rule hd_dropWhile)
  have u: "?u \<noteq> []"
  proof
    assume a: "?u = []"
    have "?v = []" unfolding a by simp
    with v show False by blast
  qed
  then have 2: "\<not> is_space (hd ?u)" by (rule hd_dropWhile)
  have "\<exists>w. rev ?u = w @ ?v"
    by (metis takeWhile_dropWhile_id)
  then obtain w where "rev ?u = w @ ?v" by blast
  then have "?u = rev ?v @ rev w"
    by (metis rev_append rev_rev_ident)
  then have "hd ?u = hd (rev ?v)"
    using v by (metis hd_append2 rev_is_Nil_conv)
  with 1 2 v show ?thesis
    by (simp add: py_strip_def last_rev)
qed

lemma strip_strip: "py_strip (py_strip y) = py_strip y"
  by (rule strip_fix) (rule strip_ends)

lemma normalize_alias_norm_idem:
  assumes "ascii_stable U"
  shows "normalize_alias_norm U (normalize_alias_norm U x) = normalize_alias_norm U x"
proof -
  let ?y = "normalize_alias_norm U x"
  have y: "?y = py_strip (squeeze (remove_accents U (str_lower U x)))"
    by (rule normalize_alias_norm_squeeze)
  have "plain ?y"
    unfolding y by (simp add: plain_strip plain_squeeze)
  then have "remove_accents U (str_lower U ?y) = ?y"
    by (rule stable_remove_accents [OF assms])
  then have "normalize_alias_norm U ?y = py_strip (squeeze ?y)"
    by (simp add: normalize_alias_norm_squeeze [of U ?y])
  also have "\<dots> = ?y"
    unfolding y by (simp add: squeeze_strip_squeeze strip_strip)
  finally show ?thesis .
qed

lemma key_tokens_idem: "key_tokens (key_tokens ws) = key_tokens ws"
proof (induction ws)
  case Nil
  show ?case by simp
next
  case (Cons t ts)
  let ?t' = "case map_of ABBREV_MAP t of None \<Rightarrow> t | Some v \<Rightarrow> v"
  have fx: "(case map_of ABBREV_MAP ?t' of None \<Rightarrow> ?t' | Some v \<Rightarrow> v) = ?t'"
    by (simp add: ABBREV_MAP_def asc_def)
  show ?case
  proof (cases "?t' = [] \<or> ?t' \<in> set STOPWORDS")
    case True
    with Cons show ?thesis by (simp add: Let_def)
  next
    case False
    have "key_tokens (key_tokens (t # ts)) = key_tokens (?t' # key_tokens ts)"
      using False by (simp add: Let_def)
    also have "\<dots> = ?t' # key_tokens (key_tokens ts)"
      using False fx by (simp add: Let_def del: map_of.simps)
    finally show ?thesis
      using False Cons by (simp add: Let_def)
  qed
qed

lemma words_ok_key_tokens: "words_ok ws \<Longrightarrow> words_ok (key_tokens ws)"
proof (induction ws)
  case Nil
  show ?case by (simp add: words_ok_def)
next
  case (Cons t ts)
  let ?t' = "case map_of ABBREV_MAP t of None \<Rightarrow> t | Some v \<Rightarrow> v"
  from Cons.prems have t: "t \<noteq> [] \<and> list_all is_az09 t" and ts: "words_ok ts"
    by (simp_all add: words_ok_def)
  have "?t' = [] \<or> list_all is_az09 ?t'"
    using t by (auto simp: ABBREV_MAP_def asc_def is_az09_def)
  then show ?case
    using Cons.IH [OF ts] by (auto simp: Let_def words_ok_def)
qed

lemma split_runs_nonempty: "w \<in> set (split_runs cur s) \<Longrightarrow> w \<noteq> []"
  by (induction s arbitrary: cur) (auto split: if_splits)

lemma split_runs_chars:
  "w \<in> set (split_runs cur s) \<Longrightarrow> c \<in> set w \<Longrightarrow> \<forall>x\<in>set cur. \<not> is_space x \<Longrightarrow>
   \<not> is_space c \<and> (c \<in> set cur \<or> c \<in> set s)"
proof (induction s arbitrary: cur)
  case Nil
  then show ?case by (auto split: if_splits)
next
  case (Cons a s)
  show ?case
  proof (cases "is_space a")
    case True
    from Cons.prems True consider "w = rev cur" | "w \<in> set (split_runs [] s)"
      by (auto split: if_splits)
    then show ?thesis
    proof cases
      case 1
      with Cons.prems show ?thesis by auto
    next
      case 2
      from Cons.IH [OF 2 Cons.prems(2)] show ?thesis by auto
    qed
  next
    case False
    with Cons.prems have "w \<in> set (split_runs (a # cur) s)" by simp
    from Cons.IH [OF this Cons.prems(2)] False Cons.prems(3) show ?thesis by auto
  qed
qed

lemma words_ok_split: "plain s \<Longrightarrow> words_ok (py_split s)"
proof -
  assume p: "plain s"
  have "is_az09 c" if "w \<in> set (split_runs [] s)" and "c \<in> set w" for w c
  proof -
    from split_runs_chars [OF that] have "\<not> is_space c" and "c \<in> set s" by simp_all
    with p space_32 show ?thesis by (auto simp: plain_def list_all_iff)
  qed
  then show ?thesis
    using split_runs_nonempty by (auto simp: words_ok_def py_split_def list_all_iff)
qed

lemma py_join_Cons:
  "py_join sep (w # ws) = (if ws = [] then w else w @ sep @ py_join sep ws)"
  by (cases ws) simp_all

lemma squash_word:
  "list_all is_az09 w \<Longrightarrow> w \<noteq> [] \<Longrightarrow>
   squash (\<lambda>c. \<not> is_az09 c) [32] e (w @ r) = w @ squash (\<lambda>c. \<not> is_az09 c) [32] False r"
proof (induction w arbitrary: e)
  case Nil
  then show ?case by simp
next
  case (Cons c cs)
  then show ?case by (cases "cs = []") auto
qed

lemma squash_join:
  "words_ok ws \<Longrightarrow> squash (\<lambda>c. \<not> is_az09 c) [32] e (py_join [32] ws) = py_join [32] ws"
proof (induction ws arbitrary: e)
  case Nil
  show ?case by simp
next
  case (Cons w ws)
  then have w: "list_all is_az09 w" "w \<noteq> []" and ws: "words_ok ws"
    by (simp_all add: words_ok_def)
  show ?case
  proof (cases "ws = []")
    case True
    with squash_word [OF w, of e "[]"] show ?thesis by simp
  next
    case False
    with squash_word [OF w, of e "32 # py_join [32] ws"] Cons.IH [OF ws, of True]
    show ?thesis by (simp add: py_join_Cons not_az09_32)
  qed
qed

lemma split_runs_word:
  "list_all is_az09 w \<Longrightarrow> split_runs cur (w @ r) = split_runs (rev w @ cur) r"
  by (induction w arbitrary: cur) (auto simp: az09_not_space)

lemma split_join: "words_ok ws \<Longrightarrow> py_split (py_join [32] ws) = ws"
proof (induction ws)
  case Nil
  show ?case by (simp add: py_split_def)
next
  case (Cons w ws)
  then have w: "list_all is_az09 w" "w \<noteq> []" and ws: "words_ok ws"
    by (simp_all add: words_ok_def)
  show ?case
  proof (cases "ws = []")
    case True
    with split_runs_word [OF w(1), of "[]" "[]"] w(2) show ?thesis
      by (simp add: py_split_def)
  next
    case False
    with split_runs_word [OF w(1), of "[]" "32 # py_join [32] ws"] w(2) Cons.IH [OF ws]
    show ?thesis by (simp add: py_split_def py_join_Cons space_32)
  qed
qed

lemma plain_join: "words_ok ws \<Longrightarrow> plain (py_join [32] ws)"
  by (induction ws) (auto simp: py_join_Cons words_ok_def plain_def list_all_iff)

lemma join_ends:
  "words_ok ws \<Longrightarrow> ws \<noteq> [] \<Longrightarrow>
   py_join [32] ws \<noteq> [] \<and> is_az09 (hd (py_join [32] ws)) \<and> is_az09 (last (py_join [32] ws))"
proof (induction ws)
  case Nil
  then show ?case by simp
next
  case (Cons w ws)
  then have w: "list_all is_az09 w" "w \<noteq> []" and ws: "words_ok ws"
    by (simp_all add: words_ok_def)
  from w have hw: "is_az09 (hd w)" and lw: "is_az09 (last w)"
    by (auto simp: list_all_iff)
  show ?case
  proof (cases "ws = []")
    case True
    with w hw lw show ?thesis by simp
  next
    case False
    with Cons.IH [OF ws] w hw show ?thesis by (simp add: py_join_Cons)
  qed
qed

lemma strip_join: "words_ok ws \<Longrightarrow> py_strip (py_join [32] ws) = py_join [32] ws"
proof (cases "ws = []")
  case True
  then show ?thesis by (simp add: py_strip_def)
next
  case False
  assume "words_ok ws"
  from join_ends [OF this False] show ?thesis
    by (intro strip_fix) (simp add: az09_not_space)
qed

lemma normalize_key_join:
  "\<exists>ws. words_ok ws \<and> normalize_key U x = py_join [32] (key_tokens ws)"
proof -
  let ?s4 = "py_strip (squeeze (remove_accents U (str_lower U (py_strip x))))"
  have "plain ?s4" by (simp add: plain_strip plain_squeeze)
  then have "words_ok (py_split ?s4)" by (rule words_ok_split)
  moreover have "normalize_key U x = py_join [32] (key_tokens (py_split ?s4))"
    by (simp add: normalize_key_squeeze Let_def py_split_def)
  ultimately show ?thesis by blast
qed

lemma normalize_key_idem:
  assumes "ascii_stable U"
  shows "normalize_key U (normalize_key U x) = normalize_key U x"
proof -
  from normalize_key_join obtain ws where ws: "words_ok ws"
    and y: "normalize_key U x = py_join [32] (key_tokens ws)" by blast
  let ?ks = "key_tokens ws"
  let ?y = "py_join [32] ?ks"
  have ks: "words_ok ?ks" using ws by (rule words_ok_key_tokens)
  have 1: "py_strip ?y = ?y" using ks by (rule strip_join)
  have 2: "remove_accents U (str_lower U ?y) = ?y"
    using assms plain_join [OF ks] by (rule stable_remove_accents)
  have 3: "squeeze ?y = ?y" using ks by (simp add: squeeze_def squash_join)
  have "normalize_key U ?y = (if ?y = [] then [] else py_join [32] (key_tokens (py_split ?y)))"
    by (simp add: normalize_key_squeeze [of U ?y] 1 2 3 Let_def)
  also have "\<dots> = ?y"
    using ks by (simp add: split_join key_tokens_idem)
  finally show ?thesis by (simp add: y)
qed

section \<open>Normalizer: the database for Vietnamese text, and the claims\<close>

lemma vn_fields:
  "str_lower vn_unidata = map vn_lower_cp"
  "normalize_NFD vn_unidata = (\<lambda>s. concat (map (\<lambda>c. case map_of vn_decomp c of None \<Rightarrow> [c] | Some d \<Rightarrow> d) s))"
  "normalize_NFC vn_unidata = (\<lambda>s. s)"
  "category_Mn vn_unidata = (\<lambda>c. 768 \<le> c \<and> c \<le> 879)"
  "decimal_digit vn_unidata = (\<lambda>c. if 48 \<le> c \<and> c \<le> 57 then Some (c - 48) else None)"
  "isalnum vn_unidata = (\<lambda>c. (48 \<le> c \<and> c \<le> 57) \<or> (65 \<le> c \<and> c \<le> 90) \<or> (97 \<le> c \<and> c \<le> 122) \<or> vn_letter c)"
  "ci_eq vn_unidata = (\<lambda>p c. vn_lower_cp p = vn_lower_cp c)"
  by (simp_all add: vn_unidata_def)

lemma vn_decomp_keys: "list_all (\<lambda>(k, v). 192 \<le> k) vn_decomp"
  by (simp add: vn_decomp_def)

lemma vn_decomp_ascii: "c < 192 \<Longrightarrow> map_of vn_decomp c = None"
proof -
  assume "c < 192"
  then have "c \<notin> fst ` set vn_decomp"
    using vn_decomp_keys by (auto simp: list_all_iff)
  then show ?thesis by (simp add: map_of_eq_None_iff)
qed

lemma vn_nfd_ascii [simp]:
  "c < 192 \<Longrightarrow> (case map_of vn_decomp c of None \<Rightarrow> [c] | Some d \<Rightarrow> d) = [c]"
  by (simp add: vn_decomp_ascii)

lemma vn_nfd_letters [simp]:
  "map_of vn_decomp 7903 = Some [111, 795, 777]"
  "map_of vn_decomp 7883 = Some [105, 803]"
  "map_of vn_decomp 224 = Some [97, 768]"
  by (simp_all add: vn_decomp_def)

lemma vn_plain_text:
  "plain t \<Longrightarrow>
   map vn_lower_cp t = t \<and>
   concat (map (\<lambda>c. case map_of vn_decomp c of None \<Rightarrow> [c] | Some d \<Rightarrow> d) t) = t"
proof (induction t)
  case Nil
  show ?case by simp
next
  case (Cons c t)
  from Cons.prems have c: "is_az09 c \<or> c = 32" and t: "plain t"
    by (simp_all add: plain_def)
  from c have lc: "vn_lower_cp c = c" and dc: "map_of vn_decomp c = None"
    by (auto simp: is_az09_def vn_lower_cp_def intro: vn_decomp_ascii)
  show ?case using Cons.IH [OF t] lc dc by simp
qed

lemma ascii_stable_vn: "ascii_stable vn_unidata"
  by (simp add: ascii_stable_def vn_fields vn_plain_text)

lemma nfc_neutral_vn: "nfc_neutral vn_unidata"
  by (simp add: nfc_neutral_def vn_fields)

lemma norm_text_eq_alias_norm:
  assumes "ascii_stable U" and "nfc_neutral U"
  shows "norm_text U x = normalize_alias_norm U x"
proof (cases "x = []")
  case True
  have "remove_accents U (str_lower U []) = []"
    using assms(1) by (intro stable_remove_accents) simp_all
  then show ?thesis
    using True by (simp add: norm_text_squeeze normalize_alias_norm_squeeze squeeze_def py_strip_def)
next
  case False
  let ?t = "filter (\<lambda>c. \<not> category_Mn U c) (normalize_NFD U (str_lower U x))"
  have "list_all (\<lambda>c. \<not> category_Mn U c) ?t"
    by (simp add: list_all_iff)
  with assms(2) have "squeeze (normalize_NFC U ?t) = squeeze ?t"
    by (simp add: nfc_neutral_def)
  then show ?thesis
    using False by (simp add: norm_text_squeeze normalize_alias_norm_squeeze remove_accents_def)
qed

lemmas norm_eval =
  normalize_spaces_def remove_accents_def re_sub_def RE_SPACES_def RE_NON_ALNUM_def
  RE_NON_ALNUM_SPACE_def rx_plus_def rep_counts_def py_strip_def py_split_def is_space_def asc_def
  vn_fields vn_lower_cp_def ABBREV_MAP_def STOPWORDS_def

lemma alias_norm_nc: "normalize_alias_norm vn_unidata (asc ''nc'') = asc ''nc''"
  unfolding normalize_alias_norm_def by (simp add: norm_eval)

lemma key_nc: "normalize_key vn_unidata (asc ''nc'') = asc ''nuoc''"
  unfolding normalize_key_def Let_def by (simp add: norm_eval)

lemma norm_text_nc: "norm_text vn_unidata (asc ''nc'') = asc ''nc''"
  unfolding norm_text_def by (simp add: norm_eval)

lemma alias_norm_pho: "normalize_alias_norm vn_unidata [80, 104, 7903] = asc ''pho''"
  unfolding normalize_alias_norm_def by (simp add: norm_eval)

lemma key_pho: "normalize_key vn_unidata [80, 104, 7903] = asc ''pho''"
  unfolding normalize_key_def Let_def by (simp add: norm_eval)

lemma key_nuoc_mam: "normalize_key vn_unidata (asc ''  Nc  MAM--x va '') = asc ''nuoc mam x''"
  unfolding normalize_key_def Let_def by (simp add: norm_eval)

text \<open>
  C9: each of the two normalizers is idempotent, for every input text. The hypothesis is on
  the Unicode database only: text of \<^verbatim>\<open>a-z\<close>, \<^verbatim>\<open>0-9\<close> and spaces is left alone by
  \<^verbatim>\<open>str.lower\<close>, NFD and NFC, and holds no nonspacing mark.
\<close>

theorem C9_normalizers_idempotent:
  assumes "ascii_stable U"
  shows "normalize_alias_norm U (normalize_alias_norm U x) = normalize_alias_norm U x \<and>
         normalize_key U (normalize_key U x) = normalize_key U x"
  using assms by (simp add: normalize_alias_norm_idem normalize_key_idem)

theorem C9_normalizers_idempotent_witness:
  "ascii_stable vn_unidata \<and>
   normalize_alias_norm vn_unidata [80, 104, 7903] = asc ''pho'' \<and>
   normalize_alias_norm vn_unidata (asc ''pho'') = asc ''pho'' \<and>
   normalize_key vn_unidata (asc ''  Nc  MAM--x va '') = asc ''nuoc mam x'' \<and>
   normalize_key vn_unidata (asc ''nuoc mam x'') = asc ''nuoc mam x''"
proof -
  from C9_normalizers_idempotent [OF ascii_stable_vn, of "[80, 104, 7903]"]
  have "normalize_alias_norm vn_unidata (asc ''pho'') = asc ''pho''"
    by (simp add: alias_norm_pho)
  moreover
  from C9_normalizers_idempotent [OF ascii_stable_vn, of "asc ''  Nc  MAM--x va ''"]
  have "normalize_key vn_unidata (asc ''nuoc mam x'') = asc ''nuoc mam x''"
    by (simp add: key_nuoc_mam)
  ultimately show ?thesis
    by (simp add: ascii_stable_vn alias_norm_pho key_nuoc_mam)
qed

text \<open>
  C1, as the code has it. For every input \<open>x\<close>, \<^verbatim>\<open>normalize_key\<close> gives the tokens of
  \<^verbatim>\<open>normalize_alias_norm(x.strip())\<close> with the abbreviations of \<^verbatim>\<open>ABBREV_MAP\<close>
  replaced and the empty results and the stop words dropped, joined by single spaces;
  and \<^verbatim>\<open>norm_text\<close> gives what \<^verbatim>\<open>normalize_alias_norm\<close> gives, when recomposition
  leaves the runs of \<^verbatim>\<open>a-z0-9\<close> of a text without nonspacing marks alone.
\<close>

theorem C1_normalizers_related:
  "normalize_key U x =
     py_join (asc '' '') (key_tokens (py_split (normalize_alias_norm U (py_strip x)))) \<and>
   (ascii_stable U \<and> nfc_neutral U \<longrightarrow> norm_text U x = normalize_alias_norm U x)"
  by (simp add: normalize_key_via_alias_norm norm_text_eq_alias_norm)

theorem C1_normalizers_related_witness:
  "ascii_stable vn_unidata \<and> nfc_neutral vn_unidata \<and>
   norm_text vn_unidata [80, 104, 7903] = asc ''pho'' \<and>
   normalize_alias_norm vn_unidata [80, 104, 7903] = asc ''pho''"
  using C1_normalizers_related [of vn_unidata "[80, 104, 7903]"]
  by (simp add: ascii_stable_vn nfc_neutral_vn alias_norm_pho)

text \<open>
  C1 as stated fails: on \<^verbatim>\<open>nc\<close> the side of the duplicate search gives \<^verbatim>\<open>nuoc\<close>, the
  two others give \<^verbatim>\<open>nc\<close>.
\<close>

theorem C1_counterexample:
  "normalize_key vn_unidata (asc ''nc'') = asc ''nuoc'' \<and>
   normalize_alias_norm vn_unidata (asc ''nc'') = asc ''nc'' \<and>
   norm_text vn_unidata (asc ''nc'') = asc ''nc'' \<and>
   normalize_key vn_unidata (asc ''nc'') \<noteq> normalize_alias_norm vn_unidata (asc ''nc'')"
  by (simp add: key_nc alias_norm_nc norm_text_nc) (simp add: asc_def)

section \<open>Decision Classifier: equal normalized forms\<close>

lemma re_search_set_aux:
  "fst (finditer U ic (Set cs) d s gap 0) \<noteq> [] \<longleftrightarrow> list_ex (cset_match U cs) s"
  by (induction s arbitrary: d gap) (auto split: prod.splits)

lemma looks_bad_key_iff:
  "looks_bad_key U key \<longleftrightarrow>
     key = [] \<or> list_ex (\<lambda>c. decimal_digit U c \<noteq> None) key \<or> 40 \<le> length key \<or>
     8 < length (py_split key)"
proof -
  have "cset_match U (Is [Digit]) = (\<lambda>c. decimal_digit U c \<noteq> None)"
    by (rule ext) simp
  then show ?thesis
    by (simp add: looks_bad_key_def re_search_def RE_DIGIT_def re_search_set_aux)
qed

lemma protein_mismatch_same [simp]: "\<not> protein_mismatch n n"
  by (simp add: protein_mismatch_def)

lemma last_token_diff_same [simp]: "\<not> last_token_diff n n"
  by (simp add: last_token_diff_def)

text \<open>
  C3, as the code has it: the reject rules come first. When the two keys have the same
  normalized form, the classifier rejects if one of the keys is a bad candidate (empty,
  with a digit, of 40 characters or more, of more than 8 words) or if the normalized form
  holds both tokens of a dangerous pair; in every other case it approves.
\<close>

theorem C3_equal_norms:
  assumes "normalize_key U (canonical_key s) = normalize_key U (alias_key s)"
  shows "classify U approve_packaging s =
     (if looks_bad_key U (alias_key s) \<or> looks_bad_key U (canonical_key s) \<or>
         has_dangerous_pair (normalize_key U (alias_key s)) (normalize_key U (alias_key s))
      then (auto_reject, []) else (auto_approve, asc ''Y''))"
  using assms by (simp add: classify_def is_format_only_def)

lemma not_bad_pho: "\<not> looks_bad_key vn_unidata [80, 104, 7903]" "\<not> looks_bad_key vn_unidata (asc ''pho'')"
  by (simp_all add: looks_bad_key_iff vn_fields py_split_def is_space_def asc_def)

lemma no_dangerous_pho: "\<not> has_dangerous_pair (asc ''pho'') (asc ''pho'')"
  by (simp add: has_dangerous_pair_def tokens_def py_split_def is_space_def asc_def DANGEROUS_NEAR_PAIRS_def)

theorem C3_equal_norms_witness:
  "normalize_key vn_unidata [80, 104, 7903] = normalize_key vn_unidata (asc ''pho'') \<and>
   classify vn_unidata False
     \<lparr> canonical_id = asc ''1'', canonical_key = [80, 104, 7903], alias_id = asc ''2'',
       alias_key = asc ''pho'', score = 1, used_count_canonical = 3, used_count_alias = 1,
       reason = (1, Bucket 112 0) \<rparr> = (auto_approve, asc ''Y'')"
proof -
  have k: "normalize_key vn_unidata (asc ''pho'') = asc ''pho''"
    unfolding normalize_key_def Let_def by (simp add: norm_eval)
  show ?thesis
    using C3_equal_norms [of vn_unidata
        "\<lparr> canonical_id = asc ''1'', canonical_key = [80, 104, 7903], alias_id = asc ''2'',
           alias_key = asc ''pho'', score = 1, used_count_canonical = 3, used_count_alias = 1,
           reason = (1, Bucket 112 0) \<rparr>" False]
    by (simp add: key_pho k not_bad_pho no_dangerous_pho)
qed

lemma key_canh_chanh:
  "normalize_key vn_unidata (asc ''canh chanh'') = asc ''canh chanh''"
  "normalize_key vn_unidata (asc ''canh-chanh'') = asc ''canh chanh''"
  unfolding normalize_key_def Let_def by (simp_all add: norm_eval)

lemma not_bad_canh_chanh:
  "\<not> looks_bad_key vn_unidata (asc ''canh chanh'')" "\<not> looks_bad_key vn_unidata (asc ''canh-chanh'')"
  by (simp_all add: looks_bad_key_iff vn_fields py_split_def is_space_def asc_def)

lemma dangerous_canh_chanh: "has_dangerous_pair (asc ''canh chanh'') (asc ''canh chanh'')"
  by (simp add: has_dangerous_pair_def tokens_def py_split_def is_space_def asc_def DANGEROUS_NEAR_PAIRS_def)

lemma lower_canh_chanh:
  "str_lower vn_unidata (py_strip (asc ''canh chanh'')) \<noteq>
   str_lower vn_unidata (py_strip (asc ''canh-chanh''))"
  by (simp add: vn_fields vn_lower_cp_def py_strip_def is_space_def asc_def)

lemma suggestions_canh_chanh:
  "generate_suggestions vn_unidata ratio_example canh_rows (23 / 25) 2000 = [canh_suggestion]"
  unfolding generate_suggestions_def canh_rows_def key_canh_chanh clean_rows_def make_buckets_def
  using lower_canh_chanh [unfolded asc_def, simplified]
    not_bad_canh_chanh [unfolded asc_def, simplified]
  by (simp add: bucket_key_def pick_canonical_def make_suggestion_def
        similarity_def ratio_example_def canh_suggestion_def asc_def)

text \<open>
  C3 as stated fails. The store holds the ingredients \<^verbatim>\<open>canh chanh\<close> (used 3 times)
  and \<^verbatim>\<open>canh-chanh\<close> (used once). Their keys differ after \<^verbatim>\<open>strip().lower()\<close>, so
  \<^verbatim>\<open>generate_suggestions\<close> (with \<^verbatim>\<open>min_score\<close> 0.92 and \<^verbatim>\<open>max_pairs\<close> 2000) emits the
  pair, with score 1; their normalized forms are equal, neither key is a bad candidate,
  and \<^verbatim>\<open>export_csv\<close> writes \<^verbatim>\<open>auto_reject\<close> for it, since the normalized form holds
  \<^verbatim>\<open>canh\<close> and \<^verbatim>\<open>chanh\<close>.
\<close>

theorem C3_counterexample:
  "generate_suggestions vn_unidata ratio_example canh_rows (23 / 25) 2000 = [canh_suggestion] \<and>
   normalize_key vn_unidata (canonical_key canh_suggestion) =
     normalize_key vn_unidata (alias_key canh_suggestion) \<and>
   \<not> looks_bad_key vn_unidata (canonical_key canh_suggestion) \<and>
   \<not> looks_bad_key vn_unidata (alias_key canh_suggestion) \<and>
   export_csv vn_unidata (generate_suggestions vn_unidata ratio_example canh_rows (23 / 25) 2000)
     500 True = [(canh_suggestion, auto_reject, [])]"
  unfolding suggestions_canh_chanh
  by (simp add: export_csv_def py_prefix_def classify_def canh_suggestion_def key_canh_chanh
        not_bad_canh_chanh dangerous_canh_chanh)

section \<open>Merge Executor: idempotence and the merged note\<close>


lemma ri_key_merged_row [simp]: "ri_key (merged_row r a) = ri_key r"
  by (simp add: ri_key_def merged_row_def)
















text \<open>
  C5 on the code: recipe \<^verbatim>\<open>r1\<close> has a join-row of the canonical ingredient and one of
  the alias ingredient, both with the note \<^verbatim>\<open>tuoi\<close>. The merged note is
  \<^verbatim>\<open>tuoi; tuoi\<close>: \<^verbatim>\<open>SQL_MERGE_CONFLICTS\<close> concatenates and cuts at 200 characters, and
  does not drop the segment that both sides have.
\<close>

theorem C5_merge_repeats_shared_segment:
  "sql_merge_conflicts
     [join_row ''r1'' ''c1'' ''tuoi'' ''optional'', join_row ''r1'' ''a1'' ''tuoi'' ''core'']
     (asc ''c1'') (asc ''a1'') =
   [join_row ''r1'' ''c1'' ''tuoi; tuoi'' ''core'']"
  by (simp add: sql_merge_conflicts_def conflicts_def same_key_def merged_row_def merged_note_def
      coalesce_def join_row_def asc_def)

section \<open>Candidate Generator: the suggestions emitted\<close>











section \<open>Ingredient parser: the keys\<close>

lemmas parse_eval = norm_eval re_match_def re_findall_def re_search_def group_def
  RE_BULLET_def RE_PARENS_def RE_FRACTION_UNIT_def RE_DECIMAL_UNIT_def RE_NOTE_PHRASES_def
  RE_SUFFIX_MOD_def UNIT_PATTERN_def UNIT_MAP_def RE_DIGIT_def
  cat_def lit_def rx_star_def py_replace_def py_strip_chars_def is_word_def vn_letter_def
  add_phrases_def vn_decomp_ascii

lemma preclean_ex:
  "preclean_extract_parentheses vn_unidata (asc ''2 kg thit bo, 3 long ga'') =
     (asc ''2 kg thit bo, 3 long ga'', None)"
  unfolding preclean_extract_parentheses_def Let_def
  by (simp add: parse_eval)

lemma split_ex:
  "split_combo vn_unidata (asc ''2 kg thit bo, 3 long ga'') = [asc ''2 kg thit bo'', asc ''3 long ga'']"
  unfolding split_combo_def
  by (simp add: parse_eval)

lemma amount_ex1:
  "parse_amount_unit_minimal vn_unidata (asc ''2 kg thit bo'') =
     Inr (Some 2, Some (asc ''kg''), asc ''thit bo'')"
  unfolding parse_amount_unit_minimal_def Let_def parse_decimal_def Decimal_def normalize_unit_def
  by (simp add: parse_eval)

lemma amount_ex2:
  "parse_amount_unit_minimal vn_unidata (asc ''3 long ga'') = Inr (None, None, asc ''3 long ga'')"
  unfolding parse_amount_unit_minimal_def Let_def parse_decimal_def Decimal_def normalize_unit_def
  by (simp add: parse_eval)

lemma key_ex1:
  "extract_key_and_note vn_unidata (asc ''thit bo'') None = (asc ''thit bo'', None)"
  unfolding extract_key_and_note_def Let_def
  by (simp add: parse_eval)

lemma key_ex2:
  "extract_key_and_note vn_unidata (asc ''3 long ga'') None = (asc ''3 long ga'', None)"
  unfolding extract_key_and_note_def Let_def
  by (simp add: parse_eval)

lemma parse_parts_keys:
  assumes "parse_parts U raw_text note0 is_combo parts out = Inr items"
    and "\<forall>p\<in>set out. pi_key p \<noteq> [] \<and> \<not> re_search U False RE_DIGIT (pi_key p)"
  shows "\<forall>p\<in>set items. pi_key p \<noteq> [] \<and> \<not> re_search U False RE_DIGIT (pi_key p)"
  using assms
proof (induction parts arbitrary: out)
  case Nil
  then show ?case by simp
next
  case (Cons part parts)
  show ?case
  proof (cases "part = []")
    case True
    with Cons.prems Cons.IH show ?thesis by simp
  next
    case False
    note ne = this
    show ?thesis
    proof (cases "parse_amount_unit_minimal U part")
      case (Inl e)
      with ne Cons.prems(1) show ?thesis by simp
    next
      case (Inr t)
      obtain amount u rest where t: "t = (amount, u, rest)" by (cases t)
      obtain key nt where k: "extract_key_and_note U rest note0 = (key, nt)"
        by (cases "extract_key_and_note U rest note0")
      show ?thesis
      proof (cases "key = [] \<or> re_search U False RE_DIGIT key")
        case True
        with ne Inr t k Cons.prems(1)
        have "parse_parts U raw_text note0 is_combo parts out = Inr items"
          by (auto split: if_splits)
        from Cons.IH [OF this Cons.prems(2)] show ?thesis .
      next
        case False
        let ?p = "\<lparr> pi_amount = amount, pi_unit = u, pi_key = key,
                     pi_alias_norm = normalize_alias_norm U key, pi_note = nt,
                     pi_role = infer_role U raw_text nt is_combo \<rparr>"
        from False ne Inr t k Cons.prems(1)
        have "parse_parts U raw_text note0 is_combo parts (out @ [?p]) = Inr items"
          by simp
        moreover from False Cons.prems(2)
        have "\<forall>p\<in>set (out @ [?p]). pi_key p \<noteq> [] \<and> \<not> re_search U False RE_DIGIT (pi_key p)"
          by simp
        ultimately show ?thesis by (rule Cons.IH)
      qed
    qed
  qed
qed

lemma re_search_digit:
  "re_search U False RE_DIGIT key \<longleftrightarrow> list_ex (\<lambda>c. decimal_digit U c \<noteq> None) key"
proof -
  have "cset_match U (Is [Digit]) = (\<lambda>c. decimal_digit U c \<noteq> None)"
    by (rule ext) simp
  then show ?thesis
    by (simp add: re_search_def RE_DIGIT_def re_search_set_aux)
qed

text \<open>
  C7: whenever \<^verbatim>\<open>parse_ingredient_text_phase1\<close> returns a list, every item of it has a
  key that is not empty and in which \<^verbatim>\<open>\d\<close> finds nothing: no character of the key
  is a decimal digit.
\<close>

theorem C7_keys_without_digits:
  assumes "parse_ingredient_text_phase1 U raw_text = Inr items"
  shows "\<forall>p\<in>set items. pi_key p \<noteq> [] \<and> \<not> re_search U False RE_DIGIT (pi_key p) \<and>
           list_all (\<lambda>c. decimal_digit U c = None) (pi_key p)"
proof -
  obtain text_main note0 where "preclean_extract_parentheses U raw_text = (text_main, note0)"
    by (cases "preclean_extract_parentheses U raw_text")
  with assms have "parse_parts U raw_text note0 (1 < length (split_combo U text_main))
      (split_combo U text_main) [] = Inr items"
    by (simp add: parse_ingredient_text_phase1_def)
  from parse_parts_keys [OF this]
  have "\<forall>p\<in>set items. pi_key p \<noteq> [] \<and> \<not> re_search U False RE_DIGIT (pi_key p)"
    by simp
  then show ?thesis
    by (auto simp: re_search_digit list_ex_iff list_all_iff)
qed

lemma parse_ex:
  "parse_ingredient_text_phase1 vn_unidata (asc ''2 kg thit bo, 3 long ga'') =
     Inr [\<lparr> pi_amount = Some 2, pi_unit = Some (asc ''kg''), pi_key = asc ''thit bo'',
            pi_alias_norm = asc ''thit bo'', pi_note = None, pi_role = asc ''optional'' \<rparr>]"
proof -
  have a: "normalize_alias_norm vn_unidata (asc ''thit bo'') = asc ''thit bo''"
    unfolding normalize_alias_norm_def by (simp add: norm_eval)
  have d1: "\<not> re_search vn_unidata False RE_DIGIT (asc ''thit bo'')"
    and d2: "re_search vn_unidata False RE_DIGIT (asc ''3 long ga'')"
    by (simp_all add: re_search_digit vn_fields asc_def)
  have ne: "asc ''2 kg thit bo'' \<noteq> []" "asc ''3 long ga'' \<noteq> []" "asc ''thit bo'' \<noteq> []"
    by (simp_all add: asc_def)
  show ?thesis
    unfolding parse_ingredient_text_phase1_def preclean_ex
    by (simp add: split_ex amount_ex1 amount_ex2 key_ex1 key_ex2 a d1 d2 ne infer_role_def)
qed

text \<open>
  The line \<^verbatim>\<open>2 kg thit bo, 3 long ga\<close> has two parts. The first gives the key
  \<^verbatim>\<open>thit bo\<close>; the second has no unit after the number, its key would be
  \<^verbatim>\<open>3 long ga\<close>, and it is dropped.
\<close>

theorem C7_keys_without_digits_witness:
  "parse_ingredient_text_phase1 vn_unidata (asc ''2 kg thit bo, 3 long ga'') =
     Inr [\<lparr> pi_amount = Some 2, pi_unit = Some (asc ''kg''), pi_key = asc ''thit bo'',
            pi_alias_norm = asc ''thit bo'', pi_note = None, pi_role = asc ''optional'' \<rparr>] \<and>
   asc ''thit bo'' \<noteq> [] \<and>
   \<not> re_search vn_unidata False RE_DIGIT (asc ''thit bo'') \<and>
   list_all (\<lambda>c. decimal_digit vn_unidata c = None) (asc ''thit bo'')"
  using C7_keys_without_digits [OF parse_ex] parse_ex by simp


end
